theory Spec2Isabelle
  imports Main "HOL-Library.Word" "HOL-Library.Log_Nat"
begin

section \<open>JavaScript values\<close>

text \<open>
  The program is \<^verbatim>\<open>src/src/app.js\<close>: a \<^verbatim>\<open>Task\<close> class and a \<^verbatim>\<open>TodoApp\<close>
  class that keeps a list of tasks, filters it, and persists it as JSON under the
  key \<^verbatim>\<open>'tasks'\<close> of \<^verbatim>\<open>localStorage\<close>.

  A JavaScript string is a sequence of 16-bit code units. An ASCII literal of the
  source, such as \<^verbatim>\<open>'home'\<close>, is written \<open>js ''home''\<close>; the icons and the Russian
  labels of the source are written as their UTF-16 code units.
\<close>

type_synonym jsstring = "16 word list"

definition js :: "string \<Rightarrow> jsstring" where
  "js s = map of_char s"

text \<open>
  A \<^verbatim>\<open>Task\<close> instance: the five own properties its constructor assigns. The title,
  category and status are strings (the constructor's documented parameter types, and
  what the only caller reads from the form); \<open>createdAt\<close> is the time value of the
  \<^verbatim>\<open>Date\<close> made by \<^verbatim>\<open>new Date()\<close>, in milliseconds since the epoch. Such a
  \<^verbatim>\<open>Date\<close> is always valid.
\<close>

record task =
  id_task :: jsstring
  title :: jsstring
  category :: jsstring
  status :: jsstring
  createdAt :: int

text \<open>
  The values the program holds. \<open>Obj\<close> is an ordinary object (an object literal or an
  object made by \<^verbatim>\<open>JSON.parse\<close>) with its own properties in enumeration order;
  \<open>Instance\<close> is an object made by \<^verbatim>\<open>new Task(...)\<close>; \<open>DateV\<close> is a valid
  \<^verbatim>\<open>Date\<close>; \<open>Inherited k\<close> is the member \<open>k\<close> that an object inherits from a
  built-in prototype or from \<^verbatim>\<open>Task.prototype\<close> (a function, or for \<^verbatim>\<open>__proto__\<close>
  the prototype object). A number is held as the JSON token that denotes it: the
  program never computes with a number it has loaded, and no property below depends
  on the text of a number.
\<close>

datatype jsval =
    Undefined
  | Null
  | Bool bool
  | Num jsstring
  | Str jsstring
  | Arr "jsval list"
  | Obj "(jsstring \<times> jsval) list"
  | DateV int
  | Instance task
  | Inherited jsstring

datatype error = TypeError | SyntaxError

subsection \<open>Property reads\<close>

text \<open>
  The names every ordinary object inherits from \<^verbatim>\<open>Object.prototype\<close>.
\<close>

definition object_prototype :: "jsstring list" where
  "object_prototype =
     [js ''constructor'', js ''__defineGetter__'', js ''__defineSetter__'',
      js ''hasOwnProperty'', js ''__lookupGetter__'', js ''__lookupSetter__'',
      js ''isPrototypeOf'', js ''propertyIsEnumerable'', js ''toString'',
      js ''valueOf'', js ''__proto__'', js ''toLocaleString'']"

text \<open>
  \<^verbatim>\<open>o[k]\<close> on an ordinary object: the own property if there is one, else the member
  inherited from \<^verbatim>\<open>Object.prototype\<close>, else \<^verbatim>\<open>undefined\<close>.
\<close>

definition lookup :: "(jsstring \<times> jsval) list \<Rightarrow> jsstring \<Rightarrow> jsval" where
  "lookup ps k =
     (case map_of ps k of
        Some v \<Rightarrow> v
      | None \<Rightarrow> if k \<in> set object_prototype then Inherited k else Undefined)"

definition own_properties :: "task \<Rightarrow> (jsstring \<times> jsval) list" where
  "own_properties t =
     [(js ''id'', Str (id_task t)),
      (js ''title'', Str (title t)),
      (js ''category'', Str (category t)),
      (js ''status'', Str (status t)),
      (js ''createdAt'', DateV (createdAt t))]"

definition task_prototype :: "jsstring list" where
  "task_prototype = [js ''constructor'', js ''updateStatus'', js ''calculatePriority'']"

text \<open>
  \<^verbatim>\<open>t.k\<close> for the property names the program reads from a list element (\<^verbatim>\<open>id\<close>,
  \<^verbatim>\<open>title\<close>, \<^verbatim>\<open>category\<close>, \<^verbatim>\<open>status\<close>, \<^verbatim>\<open>updateStatus\<close>). Reading a property of
  \<^verbatim>\<open>null\<close> or \<^verbatim>\<open>undefined\<close> throws a TypeError. None of these names is defined by
  the prototypes of arrays, strings, numbers, booleans, dates or functions, so there
  the read gives \<^verbatim>\<open>undefined\<close>.
\<close>

fun member :: "jsval \<Rightarrow> jsstring \<Rightarrow> error + jsval" where
  "member Undefined k = Inl TypeError"
| "member Null k = Inl TypeError"
| "member (Obj ps) k = Inr (lookup ps k)"
| "member (Instance t) k =
     Inr (case map_of (own_properties t) k of
            Some v \<Rightarrow> v
          | None \<Rightarrow> if k \<in> set task_prototype \<or> k \<in> set object_prototype
                    then Inherited k else Undefined)"
| "member v k = Inr Undefined"

section \<open>Numbers\<close>

text \<open>
  A JavaScript number is an IEEE 754 binary64 value. The program computes with
  numbers in one place, \<^verbatim>\<open>calculatePriority\<close>: a difference of two time values, a
  quotient, a sum and a reciprocal. A finite number is modelled by its exact rational
  value, and every operation returns the exact result rounded to the nearest binary64
  value, ties to the even significand.

  The time value of a \<^verbatim>\<open>Date\<close> is an integer of magnitude at most
  \<open>8.64 \<times> 10^15\<close>, below \<open>2^53\<close>, hence a binary64 value itself. The numbers that
  \<^verbatim>\<open>calculatePriority\<close> derives from two of them are zero or of a magnitude between
  \<open>2^-53\<close> and \<open>2^54\<close>, far from the overflow and underflow thresholds, so the
  exponent range is left unbounded. A division of a positive number by zero gives
  \<^verbatim>\<open>Infinity\<close>.
\<close>

datatype number = Finite rat | Infinity

text \<open>Rounding to the nearest integer, ties to even.\<close>

definition round_ties_even :: "rat \<Rightarrow> int" where
  "round_ties_even q =
     (let f = \<lfloor>q\<rfloor>; r = q - of_int f
      in if r < 1 / 2 then f else if 1 / 2 < r then f + 1 else if even f then f else f + 1)"

text \<open>
  The binary exponent \<open>e\<close> of a nonzero \<open>q\<close>, with \<open>2^e \<le> \<bar>q\<bar> < 2^(e+1)\<close>, from the bit
  lengths of its numerator and denominator.
\<close>

definition exponent :: "rat \<Rightarrow> int" where
  "exponent q =
     (let (a, b) = quotient_of \<bar>q\<bar>; k = bitlen a - bitlen b
      in if 2 powi k \<le> \<bar>q\<bar> then k else k - 1)"

text \<open>
  The spacing of the binary64 values around \<open>q\<close>: a significand has 53 bits. \<open>fl q\<close> is
  the binary64 value nearest to \<open>q\<close>.
\<close>

definition ulp :: "rat \<Rightarrow> rat" where
  "ulp q = 2 powi (exponent q - 52)"

definition fl :: "rat \<Rightarrow> rat" where
  "fl q = (if q = 0 then 0 else of_int (round_ties_even (q / ulp q)) * ulp q)"

section \<open>The Task entity\<close>

text \<open>
  \<^verbatim>\<open>s.substring(a, b)\<close> for \<open>a \<le> b\<close>: both ends are clamped to the length.
\<close>

definition substring :: "nat \<Rightarrow> nat \<Rightarrow> jsstring \<Rightarrow> jsstring" where
  "substring a b s = take (b - a) (drop a s)"

text \<open>
  The constructor. Its two sources of nondeterminism are parameters: \<open>rnd\<close> is the
  string \<^verbatim>\<open>Math.random().toString(36)\<close> (\<^verbatim>\<open>"0"\<close>, or \<^verbatim>\<open>"0."\<close> followed by the
  base-36 digits of the random number, e.g. \<^verbatim>\<open>"0.i"\<close> for 0.5), and \<open>now\<close> is the
  clock read by \<^verbatim>\<open>new Date()\<close>. A default parameter value applies when the argument
  is \<^verbatim>\<open>undefined\<close>, here \<open>None\<close>.
\<close>

definition Task_new :: "jsstring \<Rightarrow> int \<Rightarrow> jsstring \<Rightarrow> jsstring option \<Rightarrow> jsstring option \<Rightarrow> task" where
  "Task_new rnd now ttl cat st =
     \<lparr> id_task = substring 2 11 rnd,
       title = ttl,
       category = (case cat of None \<Rightarrow> js ''home'' | Some c \<Rightarrow> c),
       status = (case st of None \<Rightarrow> js ''not-started'' | Some s \<Rightarrow> s),
       createdAt = now \<rparr>"

definition updateStatus :: "jsstring \<Rightarrow> task \<Rightarrow> task" where
  "updateStatus newStatus t = t\<lparr> status := newStatus \<rparr>"

text \<open>
  \<^verbatim>\<open>calculatePriority()\<close>. The clock read by \<^verbatim>\<open>new Date()\<close> is the parameter \<open>now\<close>.
  The subtraction converts both dates to their time values; the divisor
  \<^verbatim>\<open>1000 * 60 * 60 * 24\<close> is the integer 86400000, computed without rounding.
\<close>

definition calculatePriority :: "int \<Rightarrow> task \<Rightarrow> number" where
  "calculatePriority now t =
     (let ageInDays = fl (fl (of_int now - of_int (createdAt t)) / (1000 * 60 * 60 * 24));
          denominator = fl (ageInDays + 1)
      in if denominator = 0 then Infinity else Finite (fl (1 / denominator)))"

section \<open>Icons and labels\<close>

text \<open>
  \<^verbatim>\<open>icons[category] || pin\<close> and \<^verbatim>\<open>texts[status]\<close>: reads of an object literal
  with a string as the key, the documented type of both parameters.
  The icons are the house, briefcase, books and pushpin emoji (U+1F3E0, U+1F4BC,
  U+1F4DA, U+1F4CC), each a surrogate pair; the labels are the Russian for
  "not started", "in progress" and "done".
\<close>

definition icons :: "(jsstring \<times> jsval) list" where
  "icons =
     [(js ''home'', Str [0xD83C, 0xDFE0]),
      (js ''work'', Str [0xD83D, 0xDCBC]),
      (js ''study'', Str [0xD83D, 0xDCDA])]"

definition texts :: "(jsstring \<times> jsval) list" where
  "texts =
     [(js ''not-started'',
         Str [0x041D, 0x0435, 0x0020, 0x043D, 0x0430, 0x0447, 0x0430, 0x0442, 0x043E]),
      (js ''in-progress'',
         Str [0x0412, 0x0020, 0x043F, 0x0440, 0x043E, 0x0446, 0x0435, 0x0441, 0x0441, 0x0435]),
      (js ''completed'',
         Str [0x0413, 0x043E, 0x0442, 0x043E, 0x0432, 0x043E])]"

text \<open>
  The own values of \<open>icons\<close> are non-empty strings and an inherited member is an
  object, all truthy; so \<^verbatim>\<open>||\<close> takes its right operand exactly when the read
  gives \<^verbatim>\<open>undefined\<close>.
\<close>

definition getCategoryIcon :: "jsstring \<Rightarrow> jsval" where
  "getCategoryIcon cat =
     (case lookup icons cat of
        Undefined \<Rightarrow> Str [0xD83D, 0xDCCC]
      | v \<Rightarrow> v)"

definition getStatusText :: "jsstring \<Rightarrow> jsval" where
  "getStatusText st = lookup texts st"


section \<open>JSON\<close>

subsection \<open>Dates\<close>

text \<open>
  \<^verbatim>\<open>Date.prototype.toISOString\<close>, which \<^verbatim>\<open>JSON.stringify\<close> reaches through
  \<^verbatim>\<open>Date.prototype.toJSON\<close>: the UTC calendar date and time of a time value, as
  \<^verbatim>\<open>YYYY-MM-DDTHH:mm:ss.sssZ\<close>, the year with a sign and six digits outside 0..9999.
\<close>

fun pad :: "nat \<Rightarrow> int \<Rightarrow> jsstring" where
  "pad 0 k = []"
| "pad (Suc n) k = pad n (k div 10) @ [of_int (48 + k mod 10)]"

definition civil_from_days :: "int \<Rightarrow> int \<times> int \<times> int" where
  "civil_from_days z0 =
     (let z = z0 + 719468;
          era = z div 146097;
          doe = z - era * 146097;
          yoe = (doe - doe div 1460 + doe div 36524 - doe div 146096) div 365;
          doy = doe - (365 * yoe + yoe div 4 - yoe div 100);
          mp = (5 * doy + 2) div 153;
          d = doy - (153 * mp + 2) div 5 + 1;
          m = (if mp < 10 then mp + 3 else mp - 9);
          y = yoe + era * 400 + (if m \<le> 2 then 1 else 0)
      in (y, m, d))"

definition toISOString :: "int \<Rightarrow> jsstring" where
  "toISOString t =
     (let ms = t mod 86400000;
          (y, m, d) = civil_from_days (t div 86400000)
      in (if 0 \<le> y \<and> y \<le> 9999 then pad 4 y
          else (if y < 0 then 0x2D else 0x2B) # pad 6 \<bar>y\<bar>)
         @ [0x2D] @ pad 2 m @ [0x2D] @ pad 2 d @ [0x54]
         @ pad 2 (ms div 3600000) @ [0x3A] @ pad 2 (ms div 60000 mod 60) @ [0x3A]
         @ pad 2 (ms div 1000 mod 60) @ [0x2E] @ pad 3 (ms mod 1000) @ [0x5A])"

subsection \<open>\<^verbatim>\<open>JSON.stringify\<close>\<close>

text \<open>
  \<^verbatim>\<open>QuoteJSONString\<close>: the string in double quotes, with the two-character escapes
  for backspace, tab, line feed, form feed, carriage return, the double quote and the
  backslash, a \<^verbatim>\<open>\uXXXX\<close> escape (lower-case hexadecimal) for the other control
  characters and for a surrogate that is not part of a pair, and every other code
  unit as it is.
\<close>

definition hex_digit :: "nat \<Rightarrow> 16 word" where
  "hex_digit n = (if n < 10 then 48 + of_nat n else 87 + of_nat n)"

definition unicode_escape :: "16 word \<Rightarrow> jsstring" where
  "unicode_escape u =
     [0x5C, 0x75,
      hex_digit (unat u div 4096 mod 16), hex_digit (unat u div 256 mod 16),
      hex_digit (unat u div 16 mod 16), hex_digit (unat u mod 16)]"

definition is_lead :: "16 word \<Rightarrow> bool" where
  "is_lead u = (0xD800 \<le> u \<and> u \<le> 0xDBFF)"

definition is_trail :: "16 word \<Rightarrow> bool" where
  "is_trail u = (0xDC00 \<le> u \<and> u \<le> 0xDFFF)"

definition quote_unit :: "16 word \<Rightarrow> jsstring" where
  "quote_unit u =
     (if u = 0x08 then [0x5C, 0x62]
      else if u = 0x09 then [0x5C, 0x74]
      else if u = 0x0A then [0x5C, 0x6E]
      else if u = 0x0C then [0x5C, 0x66]
      else if u = 0x0D then [0x5C, 0x72]
      else if u = 0x22 then [0x5C, 0x22]
      else if u = 0x5C then [0x5C, 0x5C]
      else if u < 0x20 \<or> is_lead u \<or> is_trail u then unicode_escape u
      else [u])"

fun quote_units :: "jsstring \<Rightarrow> jsstring" where
  "quote_units [] = []"
| "quote_units [u] = quote_unit u"
| "quote_units (u # t # us) =
     (if is_lead u \<and> is_trail t then u # t # quote_units us
      else quote_unit u @ quote_units (t # us))"

definition QuoteJSONString :: "jsstring \<Rightarrow> jsstring" where
  "QuoteJSONString s = 0x22 # quote_units s @ [0x22]"

text \<open>
  \<^verbatim>\<open>SerializeJSONProperty\<close>. The result \<open>None\<close> is \<^verbatim>\<open>undefined\<close>: an array holds
  \<^verbatim>\<open>null\<close> in its place, an object leaves the property out. A \<^verbatim>\<open>Date\<close> is
  serialized as the string its \<^verbatim>\<open>toJSON\<close> gives, a \<^verbatim>\<open>Task\<close> instance as the
  object of its own properties (a class leaves no trace in JSON), a number as its
  token (where JavaScript writes the canonical numeral of the same number).
\<close>

fun join :: "jsstring list \<Rightarrow> jsstring" where
  "join [] = []"
| "join [x] = x"
| "join (x # y # ys) = x @ 0x2C # join (y # ys)"

definition array_text :: "jsstring option list \<Rightarrow> jsstring" where
  "array_text xs =
     0x5B # join (map (\<lambda>x. case x of None \<Rightarrow> js ''null'' | Some s \<Rightarrow> s) xs) @ [0x5D]"

definition object_text :: "(jsstring \<times> jsstring option) list \<Rightarrow> jsstring" where
  "object_text ps =
     0x7B # join (concat (map (\<lambda>(k, x). case x of None \<Rightarrow> []
                                         | Some s \<Rightarrow> [QuoteJSONString k @ 0x3A # s]) ps))
       @ [0x7D]"

fun serialize :: "jsval \<Rightarrow> jsstring option"
  and serialize_elements :: "jsval list \<Rightarrow> jsstring option list"
  and serialize_properties :: "(jsstring \<times> jsval) list \<Rightarrow> (jsstring \<times> jsstring option) list"
where
  "serialize Undefined = None"
| "serialize Null = Some (js ''null'')"
| "serialize (Bool b) = Some (if b then js ''true'' else js ''false'')"
| "serialize (Num n) = Some n"
| "serialize (Str s) = Some (QuoteJSONString s)"
| "serialize (Arr xs) = Some (array_text (serialize_elements xs))"
| "serialize (Obj ps) = Some (object_text (serialize_properties ps))"
| "serialize (DateV t) = Some (QuoteJSONString (toISOString t))"
| "serialize (Instance t) =
     Some (object_text
       [(js ''id'', Some (QuoteJSONString (id_task t))),
        (js ''title'', Some (QuoteJSONString (title t))),
        (js ''category'', Some (QuoteJSONString (category t))),
        (js ''status'', Some (QuoteJSONString (status t))),
        (js ''createdAt'', Some (QuoteJSONString (toISOString (createdAt t))))])"
| "serialize (Inherited k) = (if k = js ''__proto__'' then Some (js ''{}'') else None)"
| "serialize_elements [] = []"
| "serialize_elements (x # xs) = serialize x # serialize_elements xs"
| "serialize_properties [] = []"
| "serialize_properties ((k, v) # ps) = (k, serialize v) # serialize_properties ps"

definition JSON_stringify :: "jsval \<Rightarrow> jsstring option" where
  "JSON_stringify v = serialize v"

subsection \<open>\<^verbatim>\<open>JSON.parse\<close>\<close>

text \<open>
  A string literal, read from after its opening quote to its closing quote: the
  content and the rest of the text. A control character, an unknown escape and an
  unterminated literal are syntax errors (\<open>None\<close>).
\<close>

definition hex_value :: "16 word \<Rightarrow> nat option" where
  "hex_value c =
     (if 0x30 \<le> c \<and> c \<le> 0x39 then Some (unat c - 48)
      else if 0x41 \<le> c \<and> c \<le> 0x46 then Some (unat c - 55)
      else if 0x61 \<le> c \<and> c \<le> 0x66 then Some (unat c - 87)
      else None)"

definition hex4 :: "16 word \<Rightarrow> 16 word \<Rightarrow> 16 word \<Rightarrow> 16 word \<Rightarrow> 16 word option" where
  "hex4 a b c d =
     (case (hex_value a, hex_value b, hex_value c, hex_value d) of
        (Some x, Some y, Some z, Some w) \<Rightarrow> Some (of_nat (((x * 16 + y) * 16 + z) * 16 + w))
      | _ \<Rightarrow> None)"

definition unescape :: "16 word \<Rightarrow> 16 word option" where
  "unescape e =
     (if e = 0x22 then Some 0x22
      else if e = 0x5C then Some 0x5C
      else if e = 0x2F then Some 0x2F
      else if e = 0x62 then Some 0x08
      else if e = 0x66 then Some 0x0C
      else if e = 0x6E then Some 0x0A
      else if e = 0x72 then Some 0x0D
      else if e = 0x74 then Some 0x09
      else None)"

definition cons_to :: "16 word \<Rightarrow> (jsstring \<times> jsstring) option \<Rightarrow> (jsstring \<times> jsstring) option" where
  "cons_to u r = (case r of None \<Rightarrow> None | Some (s, rest) \<Rightarrow> Some (u # s, rest))"

fun parse_chars :: "jsstring \<Rightarrow> (jsstring \<times> jsstring) option" where
  "parse_chars [] = None"
| "parse_chars (c # cs) =
     (if c = 0x22 then Some ([], cs)
      else if c = 0x5C then
        (case cs of
           [] \<Rightarrow> None
         | e # cs' \<Rightarrow>
             if e = 0x75 then
               (case cs' of
                  h1 # h2 # h3 # h4 # cs'' \<Rightarrow>
                    (case hex4 h1 h2 h3 h4 of
                       None \<Rightarrow> None
                     | Some u \<Rightarrow> cons_to u (parse_chars cs''))
                | _ \<Rightarrow> None)
             else
               (case unescape e of
                  None \<Rightarrow> None
                | Some u \<Rightarrow> cons_to u (parse_chars cs')))
      else if c < 0x20 then None
      else cons_to c (parse_chars cs))"

lemma cons_to_Some: "cons_to u r = Some p \<longleftrightarrow> (\<exists>s rest. r = Some (s, rest) \<and> p = (u # s, rest))"
  by (auto simp: cons_to_def split: option.splits)

lemma parse_chars_shorter: "parse_chars s = Some p \<Longrightarrow> length (snd p) < length s"
proof (induction s arbitrary: p rule: parse_chars.induct)
  case 1
  then show ?case by simp
next
  case (2 c cs)
  show ?case
    using "2.prems" "2.IH"
    by (fastforce simp: cons_to_Some split: if_splits list.splits option.splits)
qed

text \<open>
  White space, and the tokens \<^verbatim>\<open>null\<close>, \<^verbatim>\<open>true\<close>, \<^verbatim>\<open>false\<close> and the numbers. No
  token may directly follow another, so a literal or a number is read as the longest
  run of letters, digits, signs and points, which must be one of the three words or
  match the number grammar
  \<^verbatim>\<open>-? (0 | [1-9][0-9]*) (. [0-9]+)? ([eE] [+-]? [0-9]+)?\<close>.
\<close>

definition is_ws :: "16 word \<Rightarrow> bool" where
  "is_ws c = (c = 0x20 \<or> c = 0x09 \<or> c = 0x0A \<or> c = 0x0D)"

definition skip_ws :: "jsstring \<Rightarrow> jsstring" where
  "skip_ws s = dropWhile is_ws s"

definition is_digit :: "16 word \<Rightarrow> bool" where
  "is_digit c = (0x30 \<le> c \<and> c \<le> 0x39)"

definition is_word :: "16 word \<Rightarrow> bool" where
  "is_word c = (is_digit c \<or> (0x41 \<le> c \<and> c \<le> 0x5A) \<or> (0x61 \<le> c \<and> c \<le> 0x7A)
                \<or> c = 0x2B \<or> c = 0x2D \<or> c = 0x2E)"

definition is_exponent :: "jsstring \<Rightarrow> bool" where
  "is_exponent s =
     (case s of
        [] \<Rightarrow> True
      | e # r \<Rightarrow>
          (e = 0x65 \<or> e = 0x45) \<and>
          (let d = (case r of [] \<Rightarrow> [] | c # r' \<Rightarrow> if c = 0x2B \<or> c = 0x2D then r' else r)
           in d \<noteq> [] \<and> list_all is_digit d))"

definition is_fraction :: "jsstring \<Rightarrow> bool" where
  "is_fraction s =
     (case s of
        [] \<Rightarrow> True
      | p # r \<Rightarrow>
          if p = 0x2E then takeWhile is_digit r \<noteq> [] \<and> is_exponent (dropWhile is_digit r)
          else is_exponent s)"

definition is_number :: "jsstring \<Rightarrow> bool" where
  "is_number tok =
     (let t = (case tok of [] \<Rightarrow> [] | c # r \<Rightarrow> if c = 0x2D then r else tok);
          ip = takeWhile is_digit t
      in ip \<noteq> [] \<and> (if hd ip = 0x30 then length ip = 1 else True)
         \<and> is_fraction (dropWhile is_digit t))"

text \<open>
  The properties of a parsed object are created in the order of the text
  (\<^verbatim>\<open>CreateDataProperty\<close>): a key already present keeps its place and takes the new
  value; a new key that is an array index (a canonical numeral below \<open>2^32 - 1\<close>) is
  enumerated among the array indices in ascending order, before every other key; any
  other new key comes last.
\<close>

definition index_value :: "jsstring \<Rightarrow> int" where
  "index_value k = foldl (\<lambda>n c. 10 * n + (uint c - 48)) 0 k"

definition array_index :: "jsstring \<Rightarrow> int option" where
  "array_index k =
     (if k \<noteq> [] \<and> list_all is_digit k \<and> (if hd k = 0x30 then length k = 1 else True)
         \<and> index_value k < 4294967295
      then Some (index_value k) else None)"

fun replace_value :: "jsstring \<Rightarrow> jsval \<Rightarrow> (jsstring \<times> jsval) list \<Rightarrow> (jsstring \<times> jsval) list" where
  "replace_value k v [] = []"
| "replace_value k v ((k', v') # ps) =
     (if k' = k then (k, v) # ps else (k', v') # replace_value k v ps)"

fun insert_index :: "int \<Rightarrow> jsstring \<Rightarrow> jsval \<Rightarrow> (jsstring \<times> jsval) list \<Rightarrow> (jsstring \<times> jsval) list" where
  "insert_index i k v [] = [(k, v)]"
| "insert_index i k v ((k', v') # ps) =
     (case array_index k' of
        None \<Rightarrow> (k, v) # (k', v') # ps
      | Some j \<Rightarrow> if j < i then (k', v') # insert_index i k v ps else (k, v) # (k', v') # ps)"

definition CreateDataProperty :: "(jsstring \<times> jsval) list \<Rightarrow> jsstring \<times> jsval \<Rightarrow> (jsstring \<times> jsval) list" where
  "CreateDataProperty ps kv =
     (case kv of (k, v) \<Rightarrow>
        if k \<in> fst ` set ps then replace_value k v ps
        else (case array_index k of None \<Rightarrow> ps @ [(k, v)] | Some i \<Rightarrow> insert_index i k v ps))"

lemma skip_ws_Cons_shorter: "skip_ws s = c # r \<Longrightarrow> length r < length s"
proof -
  assume a: "skip_ws s = c # r"
  have "length (skip_ws s) \<le> length s"
    unfolding skip_ws_def by (rule length_dropWhile_le)
  with a show ?thesis by simp
qed

text \<open>
  The value grammar, by recursive descent: each function returns what it read and
  the rest of the text. \<open>parse_elements\<close> reads the elements of an array up to its
  closing bracket, \<open>parse_members\<close> the members of an object up to its closing brace.
  The two comparisons of lengths are there for the termination proof only: a parsed
  value always consumes text (\<open>parse_value_shorter\<close> below), so they never fail.
\<close>

function parse_value :: "jsstring \<Rightarrow> (jsval \<times> jsstring) option"
  and parse_elements :: "jsstring \<Rightarrow> (jsval list \<times> jsstring) option"
  and parse_members :: "jsstring \<Rightarrow> ((jsstring \<times> jsval) list \<times> jsstring) option"
where
  "parse_value s =
     (case skip_ws s of
        [] \<Rightarrow> None
      | c # r \<Rightarrow>
          if c = 0x22 then
            (case parse_chars r of None \<Rightarrow> None | Some (str, r') \<Rightarrow> Some (Str str, r'))
          else if c = 0x5B then
            (case skip_ws r of
               [] \<Rightarrow> None
             | d # r' \<Rightarrow>
                 if d = 0x5D then Some (Arr [], r')
                 else (case parse_elements r of
                         None \<Rightarrow> None
                       | Some (vs, r'') \<Rightarrow> Some (Arr vs, r'')))
          else if c = 0x7B then
            (case skip_ws r of
               [] \<Rightarrow> None
             | d # r' \<Rightarrow>
                 if d = 0x7D then Some (Obj [], r')
                 else (case parse_members r of
                         None \<Rightarrow> None
                       | Some (ms, r'') \<Rightarrow> Some (Obj (foldl CreateDataProperty [] ms), r'')))
          else
            (let tok = takeWhile is_word (c # r); rest = dropWhile is_word (c # r)
             in if tok = js ''null'' then Some (Null, rest)
                else if tok = js ''true'' then Some (Bool True, rest)
                else if tok = js ''false'' then Some (Bool False, rest)
                else if is_number tok then Some (Num tok, rest)
                else None))"
| "parse_elements s =
     (case parse_value s of
        None \<Rightarrow> None
      | Some (v, r) \<Rightarrow>
          if length s \<le> length r then None
          else
            (case skip_ws r of
               [] \<Rightarrow> None
             | d # r' \<Rightarrow>
                 if d = 0x5D then Some ([v], r')
                 else if d = 0x2C then
                   (case parse_elements r' of
                      None \<Rightarrow> None
                    | Some (vs, r'') \<Rightarrow> Some (v # vs, r''))
                 else None))"
| "parse_members s =
     (case skip_ws s of
        [] \<Rightarrow> None
      | q # r \<Rightarrow>
          if q \<noteq> 0x22 then None
          else
            (case parse_chars r of
               None \<Rightarrow> None
             | Some (k, r1) \<Rightarrow>
                 (case skip_ws r1 of
                    [] \<Rightarrow> None
                  | col # r2 \<Rightarrow>
                      if col \<noteq> 0x3A then None
                      else
                        (case parse_value r2 of
                           None \<Rightarrow> None
                         | Some (v, r3) \<Rightarrow>
                             if length r2 \<le> length r3 then None
                             else
                               (case skip_ws r3 of
                                  [] \<Rightarrow> None
                                | d # r4 \<Rightarrow>
                                    if d = 0x7D then Some ([(k, v)], r4)
                                    else if d = 0x2C then
                                      (case parse_members r4 of
                                         None \<Rightarrow> None
                                       | Some (ms, r5) \<Rightarrow> Some ((k, v) # ms, r5))
                                    else None)))))"
  by pat_completeness auto
termination
  apply (relation "measure (\<lambda>x. case x of
          Inl s \<Rightarrow> 2 * length s
        | Inr (Inl s) \<Rightarrow> 2 * length s + 1
        | Inr (Inr s) \<Rightarrow> 2 * length s + 1)")
  apply (auto dest!: skip_ws_Cons_shorter parse_chars_shorter)
  done

definition JSON_parse :: "jsstring \<Rightarrow> jsval option" where
  "JSON_parse text =
     (case parse_value text of
        None \<Rightarrow> None
      | Some (v, rest) \<Rightarrow> if skip_ws rest = [] then Some v else None)"

section \<open>The task store\<close>

text \<open>
  The state: the two fields of the \<^verbatim>\<open>TodoApp\<close> object, and the item stored under
  the key \<^verbatim>\<open>'tasks'\<close> of \<^verbatim>\<open>localStorage\<close> (\<open>None\<close> when there is none, for which
  \<^verbatim>\<open>getItem\<close> returns \<^verbatim>\<open>null\<close>). The storage accepts every write: its quota is
  not modelled.

  The document is not part of the state. \<^verbatim>\<open>renderTasks\<close> reads the store and writes
  only the document, and it is the last statement of every method that calls it, so
  it is left out of the methods below: their result is the state when
  \<^verbatim>\<open>renderTasks\<close> is reached. Every exception a method can raise before that point
  is raised before its first write, so \<open>Inl\<close> carries no state: the state is the one
  the method was called in.
\<close>

record state =
  tasks :: jsval
  currentFilter :: jsstring
  storage :: "jsstring option"

text \<open>
  \<^verbatim>\<open>localStorage.setItem\<close> stores the string of its argument; \<^verbatim>\<open>JSON.stringify\<close>
  gives \<^verbatim>\<open>undefined\<close> only for a value that is \<^verbatim>\<open>undefined\<close> or a function.
\<close>

definition saveTasks :: "state \<Rightarrow> state" where
  "saveTasks w =
     w\<lparr> storage := Some (case JSON_stringify (tasks w) of
                           None \<Rightarrow> js ''undefined''
                         | Some text \<Rightarrow> text) \<rparr>"

text \<open>
  \<^verbatim>\<open>if (savedTasks)\<close> is false for \<^verbatim>\<open>null\<close> and for the empty string.
\<close>

definition loadTasks :: "state \<Rightarrow> error + state" where
  "loadTasks w =
     (case storage w of
        None \<Rightarrow> Inr w
      | Some savedTasks \<Rightarrow>
          if savedTasks = [] then Inr w
          else (case JSON_parse savedTasks of
                  None \<Rightarrow> Inl SyntaxError
                | Some v \<Rightarrow> Inr (w\<lparr> tasks := v \<rparr>)))"

text \<open>
  The constructor, given what \<^verbatim>\<open>localStorage\<close> holds under the key.
\<close>

definition TodoApp_new :: "jsstring option \<Rightarrow> error + state" where
  "TodoApp_new stored =
     loadTasks \<lparr> tasks = Arr [], currentFilter = js ''all'', storage = stored \<rparr>"

text \<open>
  \<^verbatim>\<open>this.tasks.push\<close>, \<^verbatim>\<open>.filter\<close> and \<^verbatim>\<open>.find\<close> are functions only when
  \<^verbatim>\<open>this.tasks\<close> is an array; on any other value the call throws a TypeError.
\<close>

definition addTask :: "jsstring \<Rightarrow> int \<Rightarrow> jsstring \<Rightarrow> jsstring \<Rightarrow> jsstring \<Rightarrow> state \<Rightarrow> error + state" where
  "addTask rnd now ttl cat st w =
     (let task = Task_new rnd now ttl (Some cat) (Some st)
      in case tasks w of
           Arr ts \<Rightarrow> Inr (saveTasks (w\<lparr> tasks := Arr (ts @ [Instance task]) \<rparr>))
         | _ \<Rightarrow> Inl TypeError)"

text \<open>
  \<^verbatim>\<open>Array.prototype.filter\<close> and \<^verbatim>\<open>find\<close> with a callback that can throw: the
  elements are visited in order and the first exception ends the call. \<open>find_first\<close>
  gives the position of the element that \<^verbatim>\<open>find\<close> returns.
\<close>

fun filter_array :: "(jsval \<Rightarrow> error + bool) \<Rightarrow> jsval list \<Rightarrow> error + jsval list" where
  "filter_array p [] = Inr []"
| "filter_array p (x # xs) =
     (case p x of
        Inl e \<Rightarrow> Inl e
      | Inr b \<Rightarrow>
          (case filter_array p xs of
             Inl e \<Rightarrow> Inl e
           | Inr ys \<Rightarrow> Inr (if b then x # ys else ys)))"

fun find_first :: "(jsval \<Rightarrow> error + bool) \<Rightarrow> jsval list \<Rightarrow> error + nat option" where
  "find_first p [] = Inr None"
| "find_first p (x # xs) =
     (case p x of
        Inl e \<Rightarrow> Inl e
      | Inr b \<Rightarrow>
          if b then Inr (Some 0)
          else (case find_first p xs of
                  Inl e \<Rightarrow> Inl e
                | Inr None \<Rightarrow> Inr None
                | Inr (Some i) \<Rightarrow> Inr (Some (Suc i))))"

text \<open>
  The callbacks \<^verbatim>\<open>t => t.id === taskId\<close> and
  \<^verbatim>\<open>t => t.category === this.currentFilter\<close>: strict equality with a string.
\<close>

definition has_id :: "jsstring \<Rightarrow> jsval \<Rightarrow> error + bool" where
  "has_id taskId t =
     (case member t (js ''id'') of Inl e \<Rightarrow> Inl e | Inr v \<Rightarrow> Inr (v = Str taskId))"

definition has_other_id :: "jsstring \<Rightarrow> jsval \<Rightarrow> error + bool" where
  "has_other_id taskId t =
     (case member t (js ''id'') of Inl e \<Rightarrow> Inl e | Inr v \<Rightarrow> Inr (v \<noteq> Str taskId))"

definition has_category :: "jsstring \<Rightarrow> jsval \<Rightarrow> error + bool" where
  "has_category c t =
     (case member t (js ''category'') of Inl e \<Rightarrow> Inl e | Inr v \<Rightarrow> Inr (v = Str c))"

definition getFilteredTasks :: "state \<Rightarrow> error + jsval" where
  "getFilteredTasks w =
     (if currentFilter w = js ''all'' then Inr (tasks w)
      else case tasks w of
             Arr ts \<Rightarrow>
               (case filter_array (has_category (currentFilter w)) ts of
                  Inl e \<Rightarrow> Inl e
                | Inr ts' \<Rightarrow> Inr (Arr ts'))
           | _ \<Rightarrow> Inl TypeError)"

text \<open>
  \<^verbatim>\<open>updateTaskStatus\<close>. The element that \<^verbatim>\<open>find\<close> returns has a string as its
  \<^verbatim>\<open>id\<close>, so it is an object and \<^verbatim>\<open>if (task)\<close> holds. \<^verbatim>\<open>task.updateStatus\<close> is the
  method of \<^verbatim>\<open>Task.prototype\<close> when the element is a \<^verbatim>\<open>Task\<close> instance; an ordinary
  object has no such function (no property made by \<^verbatim>\<open>JSON.parse\<close> is callable), and
  calling it throws a TypeError. The method assigns to the object in the list, here
  the element at the position found.
\<close>

definition updateTaskStatus :: "jsstring \<Rightarrow> jsstring \<Rightarrow> state \<Rightarrow> error + state" where
  "updateTaskStatus taskId newStatus w =
     (case tasks w of
        Arr ts \<Rightarrow>
          (case find_first (has_id taskId) ts of
             Inl e \<Rightarrow> Inl e
           | Inr None \<Rightarrow> Inr w
           | Inr (Some i) \<Rightarrow>
               (case ts ! i of
                  Instance task \<Rightarrow>
                    Inr (saveTasks (w\<lparr> tasks := Arr (ts[i := Instance (updateStatus newStatus task)]) \<rparr>))
                | _ \<Rightarrow> Inl TypeError))
      | _ \<Rightarrow> Inl TypeError)"

definition deleteTask :: "jsstring \<Rightarrow> state \<Rightarrow> error + state" where
  "deleteTask taskId w =
     (case tasks w of
        Arr ts \<Rightarrow>
          (case filter_array (has_other_id taskId) ts of
             Inl e \<Rightarrow> Inl e
           | Inr ts' \<Rightarrow> Inr (saveTasks (w\<lparr> tasks := Arr ts' \<rparr>)))
      | _ \<Rightarrow> Inl TypeError)"

section \<open>Vocabulary of the properties\<close>

text \<open>
  A store state holds a sequence of tasks: \<^verbatim>\<open>Task\<close> instances made by \<open>addTask\<close>,
  or the ordinary objects that \<open>loadTasks\<close> brought back from storage.
\<close>

fun is_task_object :: "jsval \<Rightarrow> bool" where
  "is_task_object (Instance t) = True"
| "is_task_object (Obj ps) = True"
| "is_task_object v = False"

text \<open>The task \<open>t\<close> has the identifier \<open>taskId\<close>.\<close>

definition id_is :: "jsstring \<Rightarrow> jsval \<Rightarrow> bool" where
  "id_is taskId t = (member t (js ''id'') = Inr (Str taskId))"

text \<open>What reading \<^verbatim>\<open>id\<close> gives for each element of the list, in order.\<close>

definition identifiers :: "state \<Rightarrow> (error + jsval) list" where
  "identifiers w = (case tasks w of Arr ts \<Rightarrow> map (\<lambda>t. member t (js ''id'')) ts | _ \<Rightarrow> [])"

text \<open>
  The storage slot holds the JSON serialization of the task list in memory.
\<close>

definition persisted :: "state \<Rightarrow> bool" where
  "persisted w = (JSON_stringify (tasks w) \<noteq> None \<and> storage w = JSON_stringify (tasks w))"

text \<open>
  What a saved \<^verbatim>\<open>Task\<close> instance comes back as: an ordinary object with the same
  \<^verbatim>\<open>id\<close>, \<^verbatim>\<open>title\<close>, \<^verbatim>\<open>category\<close> and \<^verbatim>\<open>status\<close>, and with \<^verbatim>\<open>createdAt\<close> the
  ISO string of the creation time.
\<close>

definition reloaded :: "task \<Rightarrow> jsval" where
  "reloaded t =
     Obj [(js ''id'', Str (id_task t)),
          (js ''title'', Str (title t)),
          (js ''category'', Str (category t)),
          (js ''status'', Str (status t)),
          (js ''createdAt'', Str (toISOString (createdAt t)))]"

text \<open>
  A sequence of \<open>addTask\<close> calls, each with its random string, its clock reading and
  its three arguments; the first exception ends the sequence.
\<close>

fun addTasks :: "(jsstring \<times> int \<times> jsstring \<times> jsstring \<times> jsstring) list \<Rightarrow> state \<Rightarrow> error + state" where
  "addTasks [] w = Inr w"
| "addTasks ((rnd, now, ttl, cat, st) # calls) w =
     (case addTask rnd now ttl cat st w of
        Inl e \<Rightarrow> Inl e
      | Inr w' \<Rightarrow> addTasks calls w')"

text \<open>
  The priority formula of the specification, \<open>1 / (ageInDays + 1)\<close>, in exact
  arithmetic; and the number the code computes for a task whose age is \<open>d\<close>
  milliseconds.
\<close>

definition exact_priority :: "int \<Rightarrow> task \<Rightarrow> rat" where
  "exact_priority now t = 1 / (of_int (now - createdAt t) / (1000 * 60 * 60 * 24) + 1)"

definition priority_of_age :: "int \<Rightarrow> rat" where
  "priority_of_age d = fl (1 / fl (fl (fl (of_int d) / 86400000) + 1))"

subsection \<open>Example states\<close>

definition empty_store :: state where
  "empty_store = \<lparr> tasks = Arr [], currentFilter = js ''all'', storage = None \<rparr>"

definition milk :: task where
  "milk = \<lparr> id_task = js ''4fzyo82mv'', title = js ''Buy milk'', category = js ''home'',
            status = js ''not-started'', createdAt = 1704067200000 \<rparr>"

definition report :: task where
  "report = \<lparr> id_task = js ''k2x9q0d1a'', title = js ''Write report'', category = js ''work'',
            status = js ''in-progress'', createdAt = 1704067260000 \<rparr>"

text \<open>The state after \<open>addTask\<close> has added \<open>milk\<close> to the empty store.\<close>

definition milk_store :: state where
  "milk_store = saveTasks (empty_store\<lparr> tasks := Arr [Instance milk] \<rparr>)"

definition milk_report_store :: state where
  "milk_report_store = saveTasks (empty_store\<lparr> tasks := Arr [Instance milk, Instance report] \<rparr>)"

text \<open>
  Two tasks made from the same random number 0.5, whose base-36 string is
  \<^verbatim>\<open>"0.i"\<close>: both have the identifier \<^verbatim>\<open>"i"\<close>.
\<close>

definition twin_a :: task where
  "twin_a = \<lparr> id_task = js ''i'', title = js ''Buy milk'', category = js ''home'',
              status = js ''not-started'', createdAt = 1704067200000 \<rparr>"

definition twin_b :: task where
  "twin_b = \<lparr> id_task = js ''i'', title = js ''Write report'', category = js ''work'',
              status = js ''in-progress'', createdAt = 1704067260000 \<rparr>"

text \<open>A task created one millisecond after \<open>milk\<close>.\<close>

definition milk_next :: task where
  "milk_next = milk\<lparr> id_task := js ''7hq1c5tzb'', createdAt := 1704067200001 \<rparr>"

section \<open>Facts about the model\<close>

lemma js_simps [simp]: "js [] = []" "js (c # cs) = of_char c # js cs"
  by (simp_all add: js_def)

subsection \<open>The parser consumes text\<close>

declare parse_value.simps [simp del] parse_elements.simps [simp del] parse_members.simps [simp del]

lemma skip_ws_shorter: "length (skip_ws s) \<le> length s"
  unfolding skip_ws_def by (rule length_dropWhile_le)

lemma is_number_Nil: "\<not> is_number []"
  by (simp add: is_number_def)

lemma token_shorter:
  assumes "takeWhile is_word (c # r) \<noteq> []"
  shows "length (dropWhile is_word (c # r)) \<le> length r"
proof -
  from assms have "is_word c" by (auto split: if_splits)
  then show ?thesis by (simp add: length_dropWhile_le)
qed

lemma parse_shorter:
  "(\<forall>v r. parse_value s = Some (v, r) \<longrightarrow> length r < length s)"
  "(\<forall>vs r. parse_elements s1 = Some (vs, r) \<longrightarrow> length r < length s1)"
  "(\<forall>ms r. parse_members s2 = Some (ms, r) \<longrightarrow> length r < length s2)"
proof (induction s and s1 and s2 rule: parse_value_parse_elements_parse_members.induct)
  case (1 s)
  show ?case
  proof (intro allI impI)
    fix v r0 assume a: "parse_value s = Some (v, r0)"
    show "length r0 < length s"
    proof (cases "skip_ws s")
      case Nil
      with a show ?thesis by (simp add: parse_value.simps)
    next
      case (Cons c r)
      then have cr: "length r < length s" by (rule skip_ws_Cons_shorter)
      consider (str) "c = 0x22" | (arr) "c \<noteq> 0x22" "c = 0x5B" | (obj) "c \<noteq> 0x22" "c \<noteq> 0x5B" "c = 0x7B"
        | (tok) "c \<noteq> 0x22" "c \<noteq> 0x5B" "c \<noteq> 0x7B" by blast
      then show ?thesis
      proof cases
        case str
        with a Cons obtain p where "parse_chars r = Some p" "snd p = r0"
          by (auto simp: parse_value.simps split: option.splits)
        then have "length r0 < length r" using parse_chars_shorter by blast
        with cr show ?thesis by simp
      next
        case arr
        show ?thesis
        proof (cases "skip_ws r")
          case Nil
          with a Cons arr show ?thesis by (simp add: parse_value.simps)
        next
          case (Cons d r')
          then have dr: "length r' < length r" by (rule skip_ws_Cons_shorter)
          show ?thesis
          proof (cases "d = 0x5D")
            case True
            with a \<open>skip_ws s = c # r\<close> arr Cons have "r0 = r'" by (simp add: parse_value.simps)
            with dr cr show ?thesis by simp
          next
            case False
            with a \<open>skip_ws s = c # r\<close> arr Cons obtain vs where "parse_elements r = Some (vs, r0)"
              by (auto simp: parse_value.simps split: option.splits)
            with "1.IH"(1)[OF \<open>skip_ws s = c # r\<close> _ _ Cons False] arr have "length r0 < length r"
              by simp
            with cr show ?thesis by simp
          qed
        qed
      next
        case obj
        show ?thesis
        proof (cases "skip_ws r")
          case Nil
          with a Cons obj show ?thesis by (simp add: parse_value.simps)
        next
          case (Cons d r')
          then have dr: "length r' < length r" by (rule skip_ws_Cons_shorter)
          show ?thesis
          proof (cases "d = 0x7D")
            case True
            with a \<open>skip_ws s = c # r\<close> obj Cons have "r0 = r'" by (simp add: parse_value.simps)
            with dr cr show ?thesis by simp
          next
            case False
            with a \<open>skip_ws s = c # r\<close> obj Cons obtain ms where "parse_members r = Some (ms, r0)"
              by (auto simp: parse_value.simps split: option.splits)
            with "1.IH"(2)[OF \<open>skip_ws s = c # r\<close> _ _ _ Cons False] obj have "length r0 < length r"
              by simp
            with cr show ?thesis by simp
          qed
        qed
      next
        case tok
        with a Cons have t: "takeWhile is_word (c # r) \<noteq> []" and r0: "r0 = dropWhile is_word (c # r)"
          by (auto simp: parse_value.simps Let_def is_number_Nil js_def split: if_splits)
        from t have "length (dropWhile is_word (c # r)) \<le> length r" by (rule token_shorter)
        with r0 cr show ?thesis by simp
      qed
    qed
  qed
next
  case (2 s)
  show ?case
  proof (intro allI impI)
    fix vs r0 assume a: "parse_elements s = Some (vs, r0)"
    then obtain v r d r' where pv: "parse_value s = Some (v, r)" and g: "\<not> length s \<le> length r"
      and sk: "skip_ws r = d # r'"
      by (auto simp: parse_elements.simps[of s] split: option.splits if_splits list.splits)
    from sk have dr: "length r' < length r" by (rule skip_ws_Cons_shorter)
    show "length r0 < length s"
    proof (cases "d = 0x5D")
      case True
      with a pv g sk have "r0 = r'" by (simp add: parse_elements.simps[of s])
      with dr g show ?thesis by simp
    next
      case False
      with a pv g sk obtain vs' where d: "d = 0x2C" and pe: "parse_elements r' = Some (vs', r0)"
        by (auto simp: parse_elements.simps[of s] split: option.splits if_splits)
      have "length r0 < length r'"
        using "2.IH"(2) pv g sk False d pe by blast
      with dr g show ?thesis by simp
    qed
  qed
next
  case (3 s)
  show ?case
  proof (intro allI impI)
    fix ms r0 assume a: "parse_members s = Some (ms, r0)"
    then obtain q r k r1 col r2 v r3 d r4 where
      s1: "skip_ws s = q # r" and q: "\<not> q \<noteq> 0x22" and s2: "parse_chars r = Some (k, r1)"
      and s3: "skip_ws r1 = col # r2" and col: "\<not> col \<noteq> 0x3A"
      and s4: "parse_value r2 = Some (v, r3)" and g: "\<not> length r2 \<le> length r3"
      and s5: "skip_ws r3 = d # r4"
      by (auto simp: parse_members.simps[of s] split: option.splits if_splits list.splits)
    have l3: "length r3 < length s"
      using s1 s2 s3 g skip_ws_Cons_shorter[of s q r] skip_ws_Cons_shorter[of r1 col r2]
        parse_chars_shorter[of r "(k, r1)"] by simp
    from s5 have l4: "length r4 < length r3" by (rule skip_ws_Cons_shorter)
    show "length r0 < length s"
    proof (cases "d = 0x7D")
      case True
      with a s1 q s2 s3 col s4 g s5 have "r0 = r4" by (simp add: parse_members.simps[of s])
      with l3 l4 show ?thesis by simp
    next
      case False
      with a s1 q s2 s3 col s4 g s5 obtain ms' where d: "d = 0x2C"
        and pm: "parse_members r4 = Some (ms', r0)"
        by (auto simp: parse_members.simps[of s] split: option.splits if_splits)
      have "length r0 < length r4"
        using "3.IH"(2) s1 q s2 s3 col s4 g s5 False d pm by blast
      with l3 l4 show ?thesis by simp
    qed
  qed
qed

lemma parse_value_shorter: "parse_value s = Some (v, r) \<Longrightarrow> length r < length s"
  using parse_shorter(1) by blast

text \<open>The equations of the parser without the comparisons of lengths.\<close>

lemma parse_elements_eq:
  "parse_elements s =
     (case parse_value s of
        None \<Rightarrow> None
      | Some (v, r) \<Rightarrow>
          (case skip_ws r of
             [] \<Rightarrow> None
           | d # r' \<Rightarrow>
               if d = 0x5D then Some ([v], r')
               else if d = 0x2C then
                 (case parse_elements r' of
                    None \<Rightarrow> None
                  | Some (vs, r'') \<Rightarrow> Some (v # vs, r''))
               else None))"
  by (subst parse_elements.simps) (auto split: option.splits dest: parse_value_shorter)

lemma parse_members_eq:
  "parse_members s =
     (case skip_ws s of
        [] \<Rightarrow> None
      | q # r \<Rightarrow>
          if q \<noteq> 0x22 then None
          else
            (case parse_chars r of
               None \<Rightarrow> None
             | Some (k, r1) \<Rightarrow>
                 (case skip_ws r1 of
                    [] \<Rightarrow> None
                  | col # r2 \<Rightarrow>
                      if col \<noteq> 0x3A then None
                      else
                        (case parse_value r2 of
                           None \<Rightarrow> None
                         | Some (v, r3) \<Rightarrow>
                             (case skip_ws r3 of
                                [] \<Rightarrow> None
                              | d # r4 \<Rightarrow>
                                  if d = 0x7D then Some ([(k, v)], r4)
                                  else if d = 0x2C then
                                    (case parse_members r4 of
                                       None \<Rightarrow> None
                                     | Some (ms, r5) \<Rightarrow> Some ((k, v) # ms, r5))
                                  else None)))))"
  by (subst parse_members.simps) (auto split: option.splits list.splits dest: parse_value_shorter)

subsection \<open>A quoted string is read back\<close>

lemma hex_value_hex_digit_all: "\<forall>n\<in>set [0..<16]. hex_value (hex_digit n) = Some n"
  by code_simp

lemma hex_value_hex_digit: "n < 16 \<Longrightarrow> hex_value (hex_digit n) = Some n"
  using hex_value_hex_digit_all by simp

lemma hex_digits:
  assumes "(n::nat) < 65536"
  shows "((n div 4096 mod 16 * 16 + n div 256 mod 16) * 16 + n div 16 mod 16) * 16 + n mod 16 = n"
proof -
  define a where "a = n div 16"
  define b where "b = a div 16"
  define c where "c = b div 16"
  have n4096: "n div 4096 = c" and n256: "n div 256 = b" and n16: "n div 16 = a"
    by (simp_all add: a_def b_def c_def div_mult2_eq)
  have "n div 4096 < 16"
    using assms by (simp add: less_mult_imp_div_less)
  then have c16: "c mod 16 = c" by (simp add: n4096)
  have 1: "c * 16 + b mod 16 = b" unfolding c_def by (rule div_mult_mod_eq)
  have 2: "b * 16 + a mod 16 = a" unfolding b_def by (rule div_mult_mod_eq)
  have 3: "a * 16 + n mod 16 = n" unfolding a_def by (rule div_mult_mod_eq)
  show ?thesis
    by (simp only: n4096 n256 n16 c16 1 2 3)
qed

lemma hex4_hex_digits:
  assumes "x < 16" "y < 16" "z < 16" "w < 16"
  shows "hex4 (hex_digit x) (hex_digit y) (hex_digit z) (hex_digit w)
           = Some (of_nat (((x * 16 + y) * 16 + z) * 16 + w))"
  unfolding hex4_def by (simp only: hex_value_hex_digit assms prod.case option.case)

lemma parse_chars_unicode_escape:
  "parse_chars (unicode_escape u @ r) = cons_to u (parse_chars r)"
proof -
  have lt: "unat u < 65536"
    using unsigned_less[of u, where 'a = nat] by simp
  have "hex4 (hex_digit (unat u div 4096 mod 16)) (hex_digit (unat u div 256 mod 16))
          (hex_digit (unat u div 16 mod 16)) (hex_digit (unat u mod 16))
        = Some (of_nat (unat u))"
    by (subst hex4_hex_digits) (simp_all only: hex_digits[OF lt] mod_less_divisor zero_less_numeral)
  then have h: "hex4 (hex_digit (unat u div 4096 mod 16)) (hex_digit (unat u div 256 mod 16))
          (hex_digit (unat u div 16 mod 16)) (hex_digit (unat u mod 16)) = Some u"
    by simp
  show ?thesis
    unfolding unicode_escape_def by (simp add: h)
qed

lemma surrogate_literal:
  "is_lead u \<or> is_trail u \<Longrightarrow> u \<noteq> 0x22 \<and> u \<noteq> 0x5C \<and> \<not> u < 0x20"
  by (auto simp: is_lead_def is_trail_def word_le_nat_alt word_less_nat_alt)

lemma parse_chars_literal:
  "u \<noteq> 0x22 \<Longrightarrow> u \<noteq> 0x5C \<Longrightarrow> \<not> u < 0x20 \<Longrightarrow> parse_chars (u # r) = cons_to u (parse_chars r)"
  by simp

lemma parse_chars_quote_unit:
  "parse_chars (quote_unit u @ r) = cons_to u (parse_chars r)"
  unfolding quote_unit_def
  by (simp add: parse_chars_unicode_escape unescape_def del: parse_chars.simps)
     (simp add: unescape_def)

lemma parse_chars_quote_units:
  "parse_chars (quote_units s @ 0x22 # rest) = Some (s, rest)"
proof (induction s rule: quote_units.induct)
  case 1
  show ?case by simp
next
  case (2 u)
  have "parse_chars (quote_unit u @ 0x22 # rest) = cons_to u (parse_chars (0x22 # rest))"
    by (rule parse_chars_quote_unit)
  then show ?case by (simp add: cons_to_def)
next
  case (3 u t us)
  show ?case
  proof (cases "is_lead u \<and> is_trail t")
    case True
    then have u: "u \<noteq> 0x22 \<and> u \<noteq> 0x5C \<and> \<not> u < 0x20"
      and t: "t \<noteq> 0x22 \<and> t \<noteq> 0x5C \<and> \<not> t < 0x20"
      using surrogate_literal[of u] surrogate_literal[of t] by blast+
    have "parse_chars (u # t # quote_units us @ 0x22 # rest)
        = cons_to u (cons_to t (parse_chars (quote_units us @ 0x22 # rest)))"
      using u t by (simp add: parse_chars_literal del: parse_chars.simps)
    also have "\<dots> = Some (u # t # us, rest)"
      using "3.IH"(1)[OF True] by (simp add: cons_to_def)
    finally show ?thesis using True by (simp del: parse_chars.simps)
  next
    case False
    then have q: "quote_units (u # t # us) = quote_unit u @ quote_units (t # us)"
      by auto
    have "parse_chars (quote_unit u @ quote_units (t # us) @ 0x22 # rest)
        = cons_to u (parse_chars (quote_units (t # us) @ 0x22 # rest))"
      by (rule parse_chars_quote_unit)
    also have "\<dots> = Some (u # t # us, rest)"
      using "3.IH"(2)[OF False] by (simp add: cons_to_def)
    finally show ?thesis by (simp only: q append_assoc)
  qed
qed

lemma skip_ws_quote [simp]: "skip_ws (0x22 # r) = 0x22 # r"
  by (simp add: skip_ws_def is_ws_def)

lemma parse_value_QuoteJSONString:
  "parse_value (QuoteJSONString s @ rest) = Some (Str s, rest)"
  by (subst parse_value.simps) (simp add: QuoteJSONString_def parse_chars_quote_units)

lemma skip_ws_punct [simp]:
  "skip_ws (0x3A # r) = 0x3A # r" "skip_ws (0x2C # r) = 0x2C # r"
  "skip_ws (0x7D # r) = 0x7D # r" "skip_ws (0x5D # r) = 0x5D # r"
  "skip_ws (0x7B # r) = 0x7B # r" "skip_ws (0x5B # r) = 0x5B # r"
  by (simp_all add: skip_ws_def is_ws_def)

text \<open>One member whose value is a string, followed by a comma or by the closing brace.\<close>

lemma parse_members_string_comma:
  "parse_members (QuoteJSONString k @ 0x3A # QuoteJSONString v @ 0x2C # rest)
     = (case parse_members rest of None \<Rightarrow> None | Some (ms, r) \<Rightarrow> Some ((k, Str v) # ms, r))"
  by (subst parse_members_eq)
     (simp add: QuoteJSONString_def parse_chars_quote_units
        parse_value_QuoteJSONString[unfolded QuoteJSONString_def, simplified])

lemma parse_members_string_brace:
  "parse_members (QuoteJSONString k @ 0x3A # QuoteJSONString v @ 0x7D # rest)
     = Some ([(k, Str v)], rest)"
  by (subst parse_members_eq)
     (simp add: QuoteJSONString_def parse_chars_quote_units
        parse_value_QuoteJSONString[unfolded QuoteJSONString_def, simplified])

subsection \<open>A serialized list of Task instances is read back\<close>

text \<open>The text \<^verbatim>\<open>JSON.stringify\<close> writes for one \<^verbatim>\<open>Task\<close> instance.\<close>

definition task_text :: "task \<Rightarrow> jsstring" where
  "task_text t =
     0x7B # QuoteJSONString (js ''id'') @ 0x3A # QuoteJSONString (id_task t)
       @ 0x2C # QuoteJSONString (js ''title'') @ 0x3A # QuoteJSONString (title t)
       @ 0x2C # QuoteJSONString (js ''category'') @ 0x3A # QuoteJSONString (category t)
       @ 0x2C # QuoteJSONString (js ''status'') @ 0x3A # QuoteJSONString (status t)
       @ 0x2C # QuoteJSONString (js ''createdAt'') @ 0x3A
           # QuoteJSONString (toISOString (createdAt t)) @ [0x7D]"

lemma serialize_Instance: "serialize (Instance t) = Some (task_text t)"
  by (simp add: object_text_def task_text_def)

lemma parse_value_task_text:
  "parse_value (task_text t @ rest) = Some (reloaded t, rest)"
proof -
  have m: "parse_members (tl (task_text t) @ rest)
     = Some ([(js ''id'', Str (id_task t)), (js ''title'', Str (title t)),
              (js ''category'', Str (category t)), (js ''status'', Str (status t)),
              (js ''createdAt'', Str (toISOString (createdAt t)))], rest)"
    unfolding task_text_def
    by (simp add: parse_members_string_comma parse_members_string_brace del: js_simps)
  have s: "skip_ws (tl (task_text t) @ rest) = 0x22 # tl (tl (task_text t) @ rest)"
    unfolding task_text_def by (simp add: QuoteJSONString_def)
  have "parse_value (0x7B # tl (task_text t) @ rest) = Some (reloaded t, rest)"
    by (subst parse_value.simps)
       (simp add: s m reloaded_def CreateDataProperty_def array_index_def is_digit_def)
  then show ?thesis by (simp add: task_text_def)
qed

lemma serialize_elements_Instances:
  "serialize_elements (map Instance ts) = map (\<lambda>t. Some (task_text t)) ts"
  by (induction ts) (simp_all add: serialize_Instance del: serialize.simps)

lemma parse_elements_task_texts:
  "ts \<noteq> [] \<Longrightarrow>
     parse_elements (join (map task_text ts) @ 0x5D # rest) = Some (map reloaded ts, rest)"
proof (induction ts rule: list_nonempty_induct)
  case (single t)
  show ?case
    by (subst parse_elements_eq) (simp add: parse_value_task_text)
next
  case (cons t ts)
  then obtain u us where ts: "ts = u # us" by (cases ts) auto
  have "parse_elements (task_text t @ 0x2C # join (map task_text ts) @ 0x5D # rest)
      = Some (reloaded t # map reloaded ts, rest)"
    by (subst parse_elements_eq) (simp add: parse_value_task_text cons.IH)
  then show ?case by (simp add: ts)
qed

lemma JSON_parse_task_array:
  "JSON_parse (array_text (map (\<lambda>t. Some (task_text t)) ts)) = Some (Arr (map reloaded ts))"
proof (cases ts)
  case Nil
  have "parse_value [0x5B, 0x5D] = Some (Arr [], [])"
    by (subst parse_value.simps) simp
  with Nil show ?thesis
    by (simp add: JSON_parse_def array_text_def skip_ws_def)
next
  case (Cons u us)
  then have ne: "ts \<noteq> []" by simp
  have sk: "skip_ws (join (map task_text ts) @ [0x5D])
      = 0x7B # tl (join (map task_text ts) @ [0x5D])"
    using Cons by (cases us) (simp_all add: task_text_def)
  have "parse_value (0x5B # join (map task_text ts) @ [0x5D]) = Some (Arr (map reloaded ts), [])"
    by (subst parse_value.simps) (simp add: sk parse_elements_task_texts[OF ne])
  then show ?thesis
    by (simp add: JSON_parse_def array_text_def skip_ws_def comp_def)
qed

lemma stringify_Instances:
  "JSON_stringify (Arr (map Instance ts)) = Some (array_text (map (\<lambda>t. Some (task_text t)) ts))"
  by (simp only: JSON_stringify_def serialize.simps serialize_elements_Instances)

lemma array_text_not_empty: "array_text xs \<noteq> []"
  by (simp add: array_text_def)

lemma loadTasks_stored_Instances:
  assumes "storage w = JSON_stringify (Arr (map Instance ts))"
  shows "loadTasks w = Inr (w\<lparr> tasks := Arr (map reloaded ts) \<rparr>)"
  by (simp add: loadTasks_def assms stringify_Instances array_text_not_empty
      JSON_parse_task_array)

lemma loadTasks_saveTasks_Instances:
  assumes "tasks w = Arr (map Instance ts)"
  shows "loadTasks (saveTasks w) = Inr ((saveTasks w)\<lparr> tasks := Arr (map reloaded ts) \<rparr>)"
  by (rule loadTasks_stored_Instances) (simp add: saveTasks_def assms stringify_Instances)

lemma addTasks_Instances:
  "tasks w = Arr (map Instance ts) \<Longrightarrow>
     \<exists>w' ts'. addTasks calls w = Inr w' \<and> tasks w' = Arr (map Instance ts')"
proof (induction calls arbitrary: w ts)
  case Nil
  then show ?case by auto
next
  case (Cons c calls)
  obtain rnd now ttl cat st where c: "c = (rnd, now, ttl, cat, st)" by (cases c) auto
  obtain w1 where w1: "addTask rnd now ttl cat st w = Inr w1"
    and t1: "tasks w1 = Arr (map Instance (ts @ [Task_new rnd now ttl (Some cat) (Some st)]))"
    using Cons.prems by (simp add: addTask_def saveTasks_def Let_def)
  from Cons.IH[OF t1] w1 c show ?case by simp
qed

subsection \<open>Callbacks on lists of objects\<close>

lemma list_all_mono': "list_all P xs \<Longrightarrow> (\<And>x. P x \<Longrightarrow> Q x) \<Longrightarrow> list_all Q xs"
  by (induction xs) simp_all

lemma has_id_object: "is_task_object t \<Longrightarrow> has_id taskId t = Inr (id_is taskId t)"
  by (cases t) (simp_all add: has_id_def id_is_def)

lemma has_other_id_object: "is_task_object t \<Longrightarrow> has_other_id taskId t = Inr (\<not> id_is taskId t)"
  by (cases t) (simp_all add: has_other_id_def id_is_def)

lemma has_category_object:
  "is_task_object t \<Longrightarrow> has_category c t = Inr (member t (js ''category'') = Inr (Str c))"
  by (cases t) (simp_all add: has_category_def)

lemma filter_array_total:
  "list_all (\<lambda>t. p t = Inr (q t)) ts \<Longrightarrow> filter_array p ts = Inr (filter q ts)"
  by (induction ts) simp_all

lemma find_first_None:
  "find_first p ts = Inr None \<Longrightarrow> list_all (\<lambda>t. p t = Inr False) ts"
  by (induction ts) (auto split: sum.splits if_splits option.splits)

lemma find_first_Some:
  "find_first p ts = Inr (Some i) \<Longrightarrow> i < length ts \<and> p (ts ! i) = Inr True"
proof (induction ts arbitrary: i)
  case Nil
  then show ?case by simp
next
  case (Cons t ts)
  then show ?case
    by (cases i) (auto split: sum.splits if_splits option.splits)
qed

lemma has_id_False: "has_id taskId t = Inr False \<Longrightarrow> \<not> id_is taskId t"
  by (auto simp: has_id_def id_is_def split: sum.splits)

lemma find_first_absent:
  assumes "find_first (has_id taskId) ts = Inr None"
  shows "\<not> list_ex (id_is taskId) ts"
proof -
  have "list_all (\<lambda>t. has_id taskId t = Inr False) ts"
    using assms by (rule find_first_None)
  then have "list_all (\<lambda>t. \<not> id_is taskId t) ts"
    by (rule list_all_mono') (rule has_id_False)
  then show ?thesis
    by (simp add: list_all_iff list_ex_iff)
qed

lemma has_id_Instance: "has_id taskId (Instance t) = Inr (id_task t = taskId)"
  by (simp add: has_id_def own_properties_def)

lemma find_first_Instances_absent:
  "list_all (\<lambda>t. id_task t \<noteq> taskId) ts \<Longrightarrow>
     find_first (has_id taskId) (map Instance ts) = Inr None"
  by (induction ts) (simp_all add: has_id_Instance)

lemma find_first_Instances_present:
  "i < length ts \<Longrightarrow> id_task (ts ! i) = taskId \<Longrightarrow> list_all (\<lambda>t. id_task t \<noteq> taskId) (take i ts)
     \<Longrightarrow> find_first (has_id taskId) (map Instance ts) = Inr (Some i)"
proof (induction ts arbitrary: i)
  case Nil
  then show ?case by simp
next
  case (Cons t ts)
  show ?case
  proof (cases i)
    case 0
    with Cons.prems show ?thesis by (simp add: has_id_Instance)
  next
    case (Suc j)
    with Cons.prems have "find_first (has_id taskId) (map Instance ts) = Inr (Some j)"
      by (intro Cons.IH) simp_all
    with Suc Cons.prems show ?thesis by (simp add: has_id_Instance)
  qed
qed

lemma persisted_saveTasks: "tasks w = Arr ts \<Longrightarrow> persisted (saveTasks w)"
  by (simp add: persisted_def saveTasks_def JSON_stringify_def)

lemma map_list_update_same:
  "i < length xs \<Longrightarrow> f y = f (xs ! i) \<Longrightarrow> map f (xs[i := y]) = map f xs"
  by (simp add: map_update list_update_same_conv)

lemma member_id_updateStatus:
  "member (Instance (updateStatus newStatus t)) (js ''id'') = member (Instance t) (js ''id'')"
  by (simp add: updateStatus_def own_properties_def)

subsection \<open>The example states\<close>

lemma toISOString_milk: "toISOString 1704067200000 = js ''2024-01-01T00:00:00.000Z''"
  by code_simp

lemma storage_milk_store: "storage milk_store = JSON_stringify (Arr (map Instance [milk]))"
  by (simp add: milk_store_def saveTasks_def stringify_Instances[of "[milk]", simplified])

lemma addTask_milk:
  "addTask (js ''0.4fzyo82mvyr'') 1704067200000 (js ''Buy milk'') (js ''home'') (js ''not-started'')
     empty_store = Inr milk_store"
  by (simp add: addTask_def Task_new_def substring_def empty_store_def milk_store_def milk_def
      Let_def)

lemma addTask_report:
  "addTask (js ''0.k2x9q0d1a8f'') 1704067260000 (js ''Write report'') (js ''work'')
     (js ''in-progress'') milk_store = Inr milk_report_store"
  by (simp add: addTask_def Task_new_def substring_def empty_store_def milk_store_def
      milk_report_store_def report_def saveTasks_def Let_def)


subsection \<open>Rounding to the nearest binary64 value\<close>

text \<open>
  Rounding to the nearest integer is within one half, fixes the integers, and is
  monotone.
\<close>

lemma rte_error: "\<bar>of_int (round_ties_even x) - x\<bar> \<le> 1 / 2"
proof -
  have "of_int \<lfloor>x\<rfloor> \<le> x" "x < of_int \<lfloor>x\<rfloor> + 1"
    by linarith+
  then show ?thesis
    by (auto simp: round_ties_even_def Let_def)
qed

lemma rte_of_int [simp]: "round_ties_even (of_int k) = k"
  by (simp add: round_ties_even_def)

lemma rte_cases:
  "round_ties_even x = \<lfloor>x\<rfloor> \<or> round_ties_even x = \<lfloor>x\<rfloor> + 1"
  by (auto simp: round_ties_even_def Let_def)

lemma rte_mono: "x \<le> y \<Longrightarrow> round_ties_even x \<le> round_ties_even y"
proof -
  assume xy: "x \<le> y"
  then have fl: "\<lfloor>x\<rfloor> \<le> \<lfloor>y\<rfloor>" by (rule floor_mono)
  show ?thesis
  proof (cases "\<lfloor>x\<rfloor> = \<lfloor>y\<rfloor>")
    case True
    with xy show ?thesis
      by (auto simp: round_ties_even_def Let_def)
  next
    case False
    with fl have "\<lfloor>x\<rfloor> + 1 \<le> \<lfloor>y\<rfloor>" by simp
    moreover have "round_ties_even x \<le> \<lfloor>x\<rfloor> + 1" using rte_cases[of x] by auto
    moreover have "\<lfloor>y\<rfloor> \<le> round_ties_even y" using rte_cases[of y] by auto
    ultimately show ?thesis by linarith
  qed
qed

text \<open>
  Rounding to the nearest binary64 value: the relative error of \<open>fl\<close> is at most
  \<open>2^-53\<close>, \<open>fl\<close> is monotone, and it fixes the integers below \<open>2^53\<close>.
\<close>

lemma bitlen_powi:
  assumes "0 < a"
  shows "2 powi (bitlen a - 1) \<le> (of_int a :: rat)" and "(of_int a :: rat) < 2 powi bitlen a"
proof -
  from assms have l: "1 \<le> bitlen a"
    using bitlen_eq_zero_iff[of a] bitlen_nonneg[of a] by linarith
  from bitlen_bounds[OF assms] have "(2::int) ^ nat (bitlen a - 1) \<le> a" "a < 2 ^ nat (bitlen a)"
    by auto
  then have "(of_int ((2::int) ^ nat (bitlen a - 1)) :: rat) \<le> of_int a"
    "(of_int a :: rat) < of_int (2 ^ nat (bitlen a))"
    by (simp_all only: of_int_le_iff of_int_less_iff)
  with l show "2 powi (bitlen a - 1) \<le> (of_int a :: rat)" "(of_int a :: rat) < 2 powi bitlen a"
    by (simp_all add: power_int_def)
qed

lemma exponent_bounds:
  assumes "0 < q"
  shows "2 powi exponent q \<le> q" and "q < 2 powi (exponent q + 1)"
proof -
  obtain a b where ab: "quotient_of q = (a, b)" by (cases "quotient_of q")
  then have b: "0 < b" and q: "q = of_int a / of_int b"
    using quotient_of_denom_pos quotient_of_div by blast+
  with assms have a: "0 < a"
    by (simp add: zero_less_divide_iff)
  define k where "k = bitlen a - bitlen b"
  have e: "exponent q = (if 2 powi k \<le> q then k else k - 1)"
    using assms ab by (simp add: exponent_def k_def abs_of_pos)
  have "q < 2 powi bitlen a / 2 powi (bitlen b - 1)"
    unfolding q using bitlen_powi[OF a] bitlen_powi[OF b] a b
    by (intro frac_less) (auto simp: less_imp_le)
  then have up: "q < 2 powi (k + 1)"
    by (simp add: k_def power_int_diff[symmetric] algebra_simps)
  have "2 powi (bitlen a - 1) / 2 powi bitlen b < q"
    unfolding q using bitlen_powi[OF a] bitlen_powi[OF b] a b
    by (intro frac_less2) (auto simp: less_imp_le)
  then have lo: "2 powi (k - 1) < q"
    by (simp add: k_def power_int_diff[symmetric] algebra_simps)
  show "2 powi exponent q \<le> q"
    using e lo by (auto simp: less_imp_le)
  show "q < 2 powi (exponent q + 1)"
    using e up by (auto simp: not_le)
qed

lemma exponent_less:
  assumes "0 < q" and "q < 2 powi (k + 1)"
  shows "exponent q \<le> k"
proof (rule ccontr)
  assume "\<not> exponent q \<le> k"
  then have "k + 1 \<le> exponent q" by simp
  then have "(2::rat) powi (k + 1) \<le> 2 powi exponent q"
    by (intro power_int_increasing) simp_all
  with exponent_bounds(1)[OF assms(1)] assms(2) show False by linarith
qed

lemma exponent_greater:
  assumes "0 < q" and "2 powi k \<le> q"
  shows "k \<le> exponent q"
proof (rule ccontr)
  assume "\<not> k \<le> exponent q"
  then have "exponent q + 1 \<le> k" by simp
  then have "(2::rat) powi (exponent q + 1) \<le> 2 powi k"
    by (intro power_int_increasing) simp_all
  with exponent_bounds(2)[OF assms(1)] assms(2) show False by linarith
qed

lemma exponent_mono:
  assumes "0 < q" and "q \<le> r"
  shows "exponent q \<le> exponent r"
proof -
  from assms have r: "0 < r" by simp
  have "2 powi exponent q \<le> r"
    using exponent_bounds(1)[OF assms(1)] assms(2) by simp
  then show ?thesis by (rule exponent_greater[OF r])
qed

lemma ulp_pos: "0 < ulp q"
  by (simp add: ulp_def zero_less_power_int)

lemma ulp_scale:
  shows "ulp q * 2 ^ 52 = 2 powi exponent q" and "ulp q * 2 ^ 53 = 2 powi (exponent q + 1)"
proof -
  have "(2::rat) powi (exponent q - 52 + 52) = 2 powi (exponent q - 52) * 2 powi 52"
    by (rule power_int_add) simp
  moreover have "exponent q - 52 + 52 = exponent q" by simp
  ultimately show "ulp q * 2 ^ 52 = 2 powi exponent q"
    by (simp only: ulp_def power_int_numeral)
  have "(2::rat) powi (exponent q - 52 + 53) = 2 powi (exponent q - 52) * 2 powi 53"
    by (rule power_int_add) simp
  moreover have "exponent q - 52 + 53 = exponent q + 1" by simp
  ultimately show "ulp q * 2 ^ 53 = 2 powi (exponent q + 1)"
    by (simp only: ulp_def power_int_numeral)
qed

lemma fl_pos_unfold: "0 < q \<Longrightarrow> fl q = of_int (round_ties_even (q / ulp q)) * ulp q"
  by (simp add: fl_def)

lemma scaled_bounds:
  assumes "0 < q"
  shows "2 ^ 52 \<le> q / ulp q" and "q / ulp q < 2 ^ 53"
proof -
  have "ulp q * 2 ^ 52 \<le> q"
    using exponent_bounds(1)[OF assms] by (simp only: ulp_scale)
  then show "2 ^ 52 \<le> q / ulp q"
    using ulp_pos[of q] by (simp add: pos_le_divide_eq mult.commute)
  have "q < ulp q * 2 ^ 53"
    using exponent_bounds(2)[OF assms] by (simp only: ulp_scale)
  then show "q / ulp q < 2 ^ 53"
    using ulp_pos[of q] by (simp add: pos_divide_less_eq mult.commute)
qed

lemma fl_bounds:
  assumes "0 < q"
  shows "2 powi exponent q \<le> fl q" and "fl q \<le> 2 powi (exponent q + 1)"
proof -
  have "round_ties_even (of_int (2 ^ 52)) \<le> round_ties_even (q / ulp q)"
    using scaled_bounds(1)[OF assms] by (intro rte_mono) simp
  then have "(2::int) ^ 52 \<le> round_ties_even (q / ulp q)"
    by (simp only: rte_of_int)
  then have "(of_int ((2::int) ^ 52) :: rat) \<le> of_int (round_ties_even (q / ulp q))"
    by (simp only: of_int_le_iff)
  then have "2 ^ 52 * ulp q \<le> of_int (round_ties_even (q / ulp q)) * ulp q"
    using ulp_pos[of q] by (intro mult_right_mono) simp_all
  then show "2 powi exponent q \<le> fl q"
    by (simp only: fl_pos_unfold[OF assms] ulp_scale[symmetric] mult.commute)
  have "round_ties_even (q / ulp q) \<le> round_ties_even (of_int (2 ^ 53))"
    using scaled_bounds(2)[OF assms] by (intro rte_mono) simp
  then have "round_ties_even (q / ulp q) \<le> (2::int) ^ 53"
    by (simp only: rte_of_int)
  then have "(of_int (round_ties_even (q / ulp q)) :: rat) \<le> of_int ((2::int) ^ 53)"
    by (simp only: of_int_le_iff)
  then have "of_int (round_ties_even (q / ulp q)) * ulp q \<le> 2 ^ 53 * ulp q"
    using ulp_pos[of q] by (intro mult_right_mono) simp_all
  then show "fl q \<le> 2 powi (exponent q + 1)"
    by (simp only: fl_pos_unfold[OF assms] ulp_scale[symmetric] mult.commute)
qed

lemma fl_error:
  assumes "0 < q"
  shows "\<bar>fl q - q\<bar> \<le> q / 2 ^ 53"
proof -
  have "fl q - q = (of_int (round_ties_even (q / ulp q)) - q / ulp q) * ulp q"
    using assms ulp_pos[of q] by (simp add: fl_pos_unfold algebra_simps)
  then have "\<bar>fl q - q\<bar> = \<bar>of_int (round_ties_even (q / ulp q)) - q / ulp q\<bar> * ulp q"
    using ulp_pos[of q] by (simp add: abs_mult)
  also have "\<dots> \<le> 1 / 2 * ulp q"
    using rte_error[of "q / ulp q"] ulp_pos[of q] by (intro mult_right_mono) simp_all
  also have "\<dots> \<le> q / 2 ^ 53"
  proof -
    have "ulp q * 2 ^ 52 \<le> q"
      using exponent_bounds(1)[OF assms] by (simp only: ulp_scale)
    then show ?thesis by simp
  qed
  finally show ?thesis .
qed

lemma fl_pos: "0 < q \<Longrightarrow> 0 < fl q"
proof -
  assume q: "0 < q"
  have "(0::rat) < 2 powi exponent q" by (rule zero_less_power_int) simp
  with fl_bounds(1)[OF q] show ?thesis by linarith
qed

lemma fl_mono:
  assumes "0 \<le> q" and "q \<le> r"
  shows "fl q \<le> fl r"
proof (cases "q = 0")
  case True
  then show ?thesis
    using assms fl_pos[of r] by (cases "r = 0") (simp_all add: fl_def less_imp_le)
next
  case False
  with assms have q: "0 < q" and r: "0 < r" by simp_all
  show ?thesis
  proof (cases "exponent q = exponent r")
    case True
    then have u: "ulp q = ulp r" by (simp add: ulp_def)
    have "q / ulp r \<le> r / ulp r"
      using assms(2) ulp_pos[of r] by (simp add: divide_right_mono)
    then have "round_ties_even (q / ulp r) \<le> round_ties_even (r / ulp r)"
      by (rule rte_mono)
    then have "(of_int (round_ties_even (q / ulp r)) :: rat) \<le> of_int (round_ties_even (r / ulp r))"
      by (simp only: of_int_le_iff)
    then have "of_int (round_ties_even (q / ulp r)) * ulp r \<le> of_int (round_ties_even (r / ulp r)) * ulp r"
      using ulp_pos[of r] by (intro mult_right_mono) simp_all
    then show ?thesis
      using q r u by (simp add: fl_pos_unfold)
  next
    case False
    with exponent_mono[OF q assms(2)] have "exponent q + 1 \<le> exponent r" by simp
    then have "(2::rat) powi (exponent q + 1) \<le> 2 powi exponent r"
      by (intro power_int_increasing) simp_all
    with fl_bounds(2)[OF q] fl_bounds(1)[OF r] show ?thesis by linarith
  qed
qed

lemma fl_zero [simp]: "fl 0 = 0"
  by (simp add: fl_def)

lemma fl_int:
  assumes "0 \<le> d" and "d < 2 ^ 53"
  shows "fl (of_int d) = of_int d"
proof (cases "d = 0")
  case True
  then show ?thesis by simp
next
  case False
  with assms have d: "0 < (of_int d :: rat)" by simp
  define e where "e = exponent (of_int d)"
  have "(of_int d :: rat) < of_int (2 ^ 53)"
    using assms(2) by (simp only: of_int_less_iff)
  then have "(of_int d :: rat) < 2 powi (52 + 1)" by simp
  from exponent_less[OF d this] have e: "e \<le> 52" by (simp add: e_def)
  define n where "n = nat (52 - e)"
  have u: "ulp (of_int d) = 1 / 2 ^ n"
  proof -
    have "e - 52 = - int n" using e by (simp add: n_def)
    then have "ulp (of_int d) = 2 powi (- int n)" by (simp add: ulp_def e_def)
    then show ?thesis by (simp add: power_int_minus_divide)
  qed
  have "of_int d / ulp (of_int d) = (of_int (d * 2 ^ n) :: rat)"
    by (simp add: u)
  then have "round_ties_even (of_int d / ulp (of_int d)) = d * 2 ^ n"
    by (simp only: rte_of_int)
  then show ?thesis
    by (simp add: fl_pos_unfold[OF d] u)
qed

lemma fl_one: "fl 1 = 1"
  using fl_int[of 1] by simp

lemma fl_ge:
  assumes "0 \<le> q"
  shows "(1 - 1 / 2 ^ 53) * q \<le> fl q" and "fl q \<le> (1 + 1 / 2 ^ 53) * q"
proof -
  have "\<bar>fl q - q\<bar> \<le> q / 2 ^ 53"
    using assms fl_error[of q] by (cases "q = 0") simp_all
  then have "q - q / 2 ^ 53 \<le> fl q" "fl q \<le> q + q / 2 ^ 53"
    by linarith+
  then show "(1 - 1 / 2 ^ 53) * q \<le> fl q" "fl q \<le> (1 + 1 / 2 ^ 53) * q"
    by (simp_all only: left_diff_distrib distrib_right mult_1 times_divide_eq_left)
qed

lemma days_nonneg: "0 \<le> d \<Longrightarrow> 0 \<le> fl (fl (of_int d) / 86400000)"
proof -
  assume "0 \<le> d"
  then have "fl 0 \<le> fl (of_int d)" by (intro fl_mono) simp_all
  then have "0 \<le> fl (of_int d) / 86400000" by simp
  then have "fl 0 \<le> fl (fl (of_int d) / 86400000)" by (intro fl_mono) simp_all
  then show ?thesis by simp
qed

lemma denominator_ge_1: "0 \<le> d \<Longrightarrow> 1 \<le> fl (fl (fl (of_int d) / 86400000) + 1)"
proof -
  assume "0 \<le> d"
  then have "1 \<le> fl (fl (of_int d) / 86400000) + 1" using days_nonneg by simp
  then have "fl 1 \<le> fl (fl (fl (of_int d) / 86400000) + 1)" by (intro fl_mono) simp_all
  then show ?thesis by (simp add: fl_one)
qed

lemma denominator_mono:
  assumes "0 \<le> d1" and "d1 \<le> d2"
  shows "fl (fl (fl (of_int d1) / 86400000) + 1) \<le> fl (fl (fl (of_int d2) / 86400000) + 1)"
proof -
  have "fl (of_int d1) \<le> fl (of_int d2)"
    using assms by (intro fl_mono) simp_all
  moreover have "0 \<le> fl (of_int d1)"
    using fl_mono[of 0 "of_int d1"] assms by simp
  ultimately have "fl (fl (of_int d1) / 86400000) \<le> fl (fl (of_int d2) / 86400000)"
    by (intro fl_mono) (simp_all add: divide_right_mono)
  moreover have "0 \<le> fl (fl (of_int d1) / 86400000)"
    using assms by (intro days_nonneg)
  ultimately show ?thesis
    by (intro fl_mono) simp_all
qed

lemma priority_range:
  assumes "0 \<le> d"
  shows "0 < priority_of_age d" and "priority_of_age d \<le> 1"
proof -
  let ?y = "fl (fl (fl (of_int d) / 86400000) + 1)"
  have y: "1 \<le> ?y" using assms by (rule denominator_ge_1)
  then have "0 < 1 / ?y" by simp
  then show "0 < priority_of_age d"
    unfolding priority_of_age_def by (rule fl_pos)
  have "1 / ?y \<le> 1" using y by simp
  moreover have "0 \<le> 1 / ?y" using y by simp
  ultimately have "fl (1 / ?y) \<le> fl 1" by (intro fl_mono)
  then show "priority_of_age d \<le> 1"
    by (simp add: priority_of_age_def fl_one)
qed

lemma priority_antimono:
  assumes "0 \<le> d1" and "d1 \<le> d2"
  shows "priority_of_age d2 \<le> priority_of_age d1"
proof -
  let ?y1 = "fl (fl (fl (of_int d1) / 86400000) + 1)"
  let ?y2 = "fl (fl (fl (of_int d2) / 86400000) + 1)"
  have y1: "1 \<le> ?y1" using assms(1) by (rule denominator_ge_1)
  have y12: "?y1 \<le> ?y2" using assms by (rule denominator_mono)
  then have "1 / ?y2 \<le> 1 / ?y1"
    using y1 by (intro divide_left_mono) (simp_all add: zero_less_mult_iff)
  moreover have "0 \<le> 1 / ?y2" using y1 y12 by simp
  ultimately show ?thesis
    unfolding priority_of_age_def by (rule fl_mono[rotated])
qed

text \<open>
  One more millisecond of age gives a strictly smaller priority, up to an age of
  \<open>2^50\<close> ms: the relative rounding error of each of the three operations is at
  most \<open>2^-53\<close>, and the step of the exact quotient outweighs the accumulated error.
\<close>

lemma step_algebra:
  fixes a b q c :: rat
  shows "b * (b * (b * q + 1)) < a * (a * (a * (q + c) + 1)) \<longleftrightarrow>
    b ^ 3 * q + b ^ 2 < a ^ 3 * q + a ^ 3 * c + a ^ 2"
  by (simp add: power3_eq_cube power2_eq_square algebra_simps)

lemma step_constants:
  assumes "0 \<le> (q::rat)" and "q * 86400000 \<le> 2 ^ 50 - 1"
  shows "(1 + 1 / 2 ^ 53) * ((1 + 1 / 2 ^ 53) * ((1 + 1 / 2 ^ 53) * q + 1))
       < (1 - 1 / 2 ^ 53) * ((1 - 1 / 2 ^ 53) * ((1 - 1 / 2 ^ 53) * (q + 1 / 86400000) + 1))"
proof -
  have "(1 + 1 / 2 ^ 53) ^ 3 * q + (1 + 1 / 2 ^ 53) ^ 2
      < (1 - 1 / 2 ^ 53) ^ 3 * q + (1 - 1 / 2 ^ 53) ^ 3 * (1 / 86400000) + (1 - 1 / 2 ^ 53) ^ 2"
    using assms by (simp add: power3_eq_cube power2_eq_square)
  then show ?thesis by (simp only: step_algebra)
qed

lemma priority_step:
  assumes "0 \<le> d" and "d + 1 \<le> 2 ^ 50"
  shows "priority_of_age (d + 1) < priority_of_age d"
proof -
  define a :: rat where "a = 1 - 1 / 2 ^ 53"
  define b :: rat where "b = 1 + 1 / 2 ^ 53"
  have a: "0 < a" and b: "0 < b" by (simp_all add: a_def b_def)
  define q1 :: rat where "q1 = of_int d / 86400000"
  define q2 :: rat where "q2 = of_int (d + 1) / 86400000"
  define x1 where "x1 = fl q1"
  define x2 where "x2 = fl q2"
  define y1 where "y1 = fl (x1 + 1)"
  define y2 where "y2 = fl (x2 + 1)"
  have q1: "0 \<le> q1" and q2: "0 \<le> q2" using assms by (simp_all add: q1_def q2_def)
  have q21: "q2 = q1 + 1 / 86400000" by (simp add: q1_def q2_def add_divide_distrib)
  have d53: "d < 2 ^ 53" "d + 1 < 2 ^ 53" using assms by simp_all
  have p1: "priority_of_age d = fl (1 / y1)"
    using assms d53 by (simp add: priority_of_age_def y1_def x1_def q1_def fl_int)
  have p2: "priority_of_age (d + 1) = fl (1 / y2)"
    using assms d53 fl_int[of "d + 1"]
    by (simp add: priority_of_age_def y2_def x2_def q2_def)
  have x1: "0 \<le> x1" "x1 \<le> b * q1"
    using fl_mono[of 0 q1] fl_ge(2)[OF q1] q1 by (simp_all add: x1_def b_def)
  have x2: "0 \<le> x2" "a * q2 \<le> x2"
    using fl_mono[of 0 q2] fl_ge(1)[OF q2] q2 by (simp_all add: x2_def a_def)
  have y1: "0 < y1" "y1 \<le> b * (b * q1 + 1)"
  proof -
    have "0 < x1 + 1" using x1 by simp
    then show "0 < y1" unfolding y1_def by (rule fl_pos)
    have "y1 \<le> b * (x1 + 1)"
      using fl_ge(2)[of "x1 + 1"] x1 by (simp add: y1_def b_def)
    also have "\<dots> \<le> b * (b * q1 + 1)"
      using x1 b by (intro mult_left_mono) simp_all
    finally show "y1 \<le> b * (b * q1 + 1)" .
  qed
  have y2: "0 < y2" "a * (a * q2 + 1) \<le> y2"
  proof -
    have "0 < x2 + 1" using x2 by simp
    then show "0 < y2" unfolding y2_def by (rule fl_pos)
    have "a * (a * q2 + 1) \<le> a * (x2 + 1)"
      using x2 a by (intro mult_left_mono) simp_all
    also have "\<dots> \<le> y2"
      using fl_ge(1)[of "x2 + 1"] x2 by (simp add: y2_def a_def)
    finally show "a * (a * q2 + 1) \<le> y2" .
  qed
  have "of_int d \<le> (2 ^ 50 - 1 :: rat)"
  proof -
    from assms(2) have "d \<le> 2 ^ 50 - 1" by simp
    then have "(of_int d :: rat) \<le> of_int (2 ^ 50 - 1)" by (simp only: of_int_le_iff)
    then show ?thesis by simp
  qed
  then have "q1 * 86400000 \<le> 2 ^ 50 - 1" by (simp add: q1_def)
  from step_constants[OF q1 this]
  have key: "b * (b * (b * q1 + 1)) < a * (a * (a * q2 + 1))"
    by (simp only: a_def b_def q21)
  have "b * y1 \<le> b * (b * (b * q1 + 1))"
    using y1 b by (intro mult_left_mono) simp_all
  also note key
  also have "a * (a * (a * q2 + 1)) \<le> a * y2"
    using y2 a by (intro mult_left_mono) simp_all
  finally have cross: "b * y1 < a * y2" .
  have "fl (1 / y2) \<le> b * (1 / y2)"
    using fl_ge(2)[of "1 / y2"] y2 by (simp add: b_def)
  also have "\<dots> < a * (1 / y1)"
    using cross y1 y2 by (simp add: field_simps)
  also have "\<dots> \<le> fl (1 / y1)"
    using fl_ge(1)[of "1 / y1"] y1 by (simp add: a_def)
  finally show ?thesis by (simp only: p1 p2)
qed

lemma priority_strict:
  assumes "0 \<le> d1" and "d1 < d2" and "d2 \<le> 2 ^ 50"
  shows "priority_of_age d2 < priority_of_age d1"
proof -
  have "priority_of_age d2 \<le> priority_of_age (d1 + 1)"
    using assms by (intro priority_antimono) simp_all
  also have "\<dots> < priority_of_age d1"
    using assms by (intro priority_step) simp_all
  finally show ?thesis .
qed

text \<open>
  The computed priority is within a relative \<open>2^-50\<close> of the exact quotient: four
  roundings, each within \<open>2^-53\<close>.
\<close>

lemma accuracy_constants:
  shows "(1 + 1 / 2 ^ 53) / (1 - 1 / 2 ^ 53) ^ 3 \<le> (1 + 1 / 2 ^ 50 :: rat)"
    and "(1 - 1 / 2 ^ 50 :: rat) \<le> (1 - 1 / 2 ^ 53) / (1 + 1 / 2 ^ 53) ^ 3"
  by (simp_all add: power3_eq_cube)

lemma denominator_bounds:
  assumes "0 \<le> d"
  shows "(1 - 1 / 2 ^ 53) ^ 3 * (of_int d / 86400000 + 1) \<le> fl (fl (fl (of_int d) / 86400000) + 1)"
    and "fl (fl (fl (of_int d) / 86400000) + 1) \<le> (1 + 1 / 2 ^ 53) ^ 3 * (of_int d / 86400000 + 1)"
proof -
  define a :: rat where "a = 1 - 1 / 2 ^ 53"
  define b :: rat where "b = 1 + 1 / 2 ^ 53"
  have a: "0 < a" "a \<le> 1" and b: "0 < b" "1 \<le> b" by (simp_all add: a_def b_def)
  define q :: rat where "q = of_int d / 86400000"
  define w where "w = fl (of_int d)"
  define x where "x = fl (w / 86400000)"
  define y where "y = fl (x + 1)"
  have d: "0 \<le> (of_int d :: rat)" and q: "0 \<le> q" using assms by (simp_all add: q_def)
  have w: "0 \<le> w" "a * of_int d \<le> w" "w \<le> b * of_int d"
    using fl_mono[of 0 "of_int d"] fl_ge[OF d] d by (simp_all add: w_def a_def b_def)
  then have w': "0 \<le> w / 86400000" "a * q \<le> w / 86400000" "w / 86400000 \<le> b * q"
    by (simp_all add: q_def)
  have x: "0 \<le> x" "a * (w / 86400000) \<le> x" "x \<le> b * (w / 86400000)"
    using fl_mono[of 0 "w / 86400000"] fl_ge[OF w'(1)] w'(1) by (simp_all add: x_def a_def b_def)
  have "a * (a * q) \<le> a * (w / 86400000)"
    using w'(2) a by (intro mult_left_mono) simp_all
  with x have xl: "a * (a * q) \<le> x" by linarith
  have "b * (w / 86400000) \<le> b * (b * q)"
    using w'(3) b by (intro mult_left_mono) simp_all
  with x have xu: "x \<le> b * (b * q)" by linarith
  have x1: "0 \<le> x + 1" using x by simp
  have y: "a * (x + 1) \<le> y" "y \<le> b * (x + 1)"
    using fl_ge[OF x1] by (simp_all add: y_def a_def b_def)
  have "a * a \<le> 1" using a by (simp add: mult_le_one)
  then have "a * a * (q + 1) \<le> a * a * q + 1"
    by (simp add: distrib_left)
  also have "\<dots> \<le> x + 1" using xl by (simp add: mult.assoc)
  finally have "a * (a * a * (q + 1)) \<le> a * (x + 1)"
    using a by (intro mult_left_mono) simp_all
  with y have "a * (a * a * (q + 1)) \<le> y" by linarith
  then show "(1 - 1 / 2 ^ 53) ^ 3 * (of_int d / 86400000 + 1) \<le> fl (fl (fl (of_int d) / 86400000) + 1)"
    by (simp only: power3_eq_cube mult.assoc a_def q_def y_def x_def w_def)
  have bb: "1 \<le> b * b" by (simp add: b_def)
  have "x + 1 \<le> b * b * q + 1" using xu by (simp add: mult.assoc)
  also have "\<dots> \<le> b * b * (q + 1)"
    using bb by (simp add: distrib_left)
  finally have "b * (x + 1) \<le> b * (b * b * (q + 1))"
    using b by (intro mult_left_mono) simp_all
  with y have "y \<le> b * (b * b * (q + 1))" by linarith
  then show "fl (fl (fl (of_int d) / 86400000) + 1) \<le> (1 + 1 / 2 ^ 53) ^ 3 * (of_int d / 86400000 + 1)"
    by (simp only: power3_eq_cube mult.assoc b_def q_def y_def x_def w_def)
qed

lemma priority_accuracy:
  assumes "0 \<le> d"
  shows "\<bar>priority_of_age d - 1 / (of_int d / 86400000 + 1)\<bar> \<le> 1 / (of_int d / 86400000 + 1) / 2 ^ 50"
proof -
  define a :: rat where "a = 1 - 1 / 2 ^ 53"
  define b :: rat where "b = 1 + 1 / 2 ^ 53"
  have a: "0 < a" and b: "0 < b" by (simp_all add: a_def b_def)
  define s :: rat where "s = of_int d / 86400000 + 1"
  define y where "y = fl (fl (fl (of_int d) / 86400000) + 1)"
  have s: "0 < s" using assms by (simp add: s_def add_pos_nonneg)
  have y1: "1 \<le> y" unfolding y_def using assms by (rule denominator_ge_1)
  then have y0: "0 < y" by simp
  have yl: "a ^ 3 * s \<le> y" and yu: "y \<le> b ^ 3 * s"
    using denominator_bounds[OF assms] by (simp_all only: a_def b_def s_def y_def)
  have p: "priority_of_age d = fl (1 / y)" by (simp add: priority_of_age_def y_def)
  have r: "0 \<le> 1 / y" using y0 by simp
  have "fl (1 / y) \<le> b * (1 / y)" using fl_ge(2)[OF r] by (simp only: b_def)
  also have "\<dots> \<le> b * (1 / (a ^ 3 * s))"
    using yl y0 a b s by (intro mult_left_mono divide_left_mono) simp_all
  also have "\<dots> = b / a ^ 3 * (1 / s)" by simp
  also have "\<dots> \<le> (1 + 1 / 2 ^ 50) * (1 / s)"
    using accuracy_constants(1) s unfolding a_def b_def by (intro mult_right_mono) simp_all
  finally have up: "fl (1 / y) \<le> 1 / s + 1 / s / 2 ^ 50" by (simp add: distrib_right)
  have "(1 - 1 / 2 ^ 50) * (1 / s) \<le> a / b ^ 3 * (1 / s)"
    using accuracy_constants(2) s unfolding a_def b_def by (intro mult_right_mono) simp_all
  also have "\<dots> = a * (1 / (b ^ 3 * s))" by simp
  also have "\<dots> \<le> a * (1 / y)"
    using yu y0 a b s by (intro mult_left_mono divide_left_mono) simp_all
  also have "\<dots> \<le> fl (1 / y)" using fl_ge(1)[OF r] by (simp only: a_def)
  finally have lo: "1 / s - 1 / s / 2 ^ 50 \<le> fl (1 / y)" by (simp add: left_diff_distrib)
  from up lo have "\<bar>fl (1 / y) - 1 / s\<bar> \<le> 1 / s / 2 ^ 50" by linarith
  then show ?thesis by (simp only: p s_def)
qed

lemma calculatePriority_age:
  assumes "createdAt t \<le> now"
  shows "calculatePriority now t = Finite (priority_of_age (now - createdAt t))"
proof -
  have "0 \<le> now - createdAt t" using assms by simp
  from denominator_ge_1[OF this]
  have "fl (fl (fl (of_int (now - createdAt t)) / 86400000) + 1) \<noteq> 0" by linarith
  then show ?thesis
    by (simp add: calculatePriority_def priority_of_age_def Let_def)
qed


section \<open>The claims\<close>

subsection \<open>Persistence round trip\<close>

text \<open>
  C1, as amended. For every task list built only by \<open>addTask\<close> calls from the empty
  list, \<open>saveTasks\<close> followed by \<open>loadTasks\<close> succeeds and yields a list of the same
  length and order in which every task has the \<^verbatim>\<open>id\<close>, \<^verbatim>\<open>title\<close>, \<^verbatim>\<open>category\<close> and
  \<^verbatim>\<open>status\<close> that were saved, and its \<^verbatim>\<open>createdAt\<close> comes back as the ISO string
  of the saved creation time, not as a \<^verbatim>\<open>Date\<close>. (\<open>reloaded t\<close> is the object that
  \<^verbatim>\<open>JSON.parse\<close> makes of the saved task \<open>t\<close>.)
\<close>

theorem save_load_roundtrip:
  assumes "tasks w0 = Arr []" and "addTasks calls w0 = Inr w"
  shows "\<exists>ts. tasks w = Arr (map Instance ts)
           \<and> loadTasks (saveTasks w) = Inr ((saveTasks w)\<lparr> tasks := Arr (map reloaded ts) \<rparr>)
           \<and> list_all (\<lambda>t.
                 member (reloaded t) (js ''id'') = member (Instance t) (js ''id'')
               \<and> member (reloaded t) (js ''title'') = member (Instance t) (js ''title'')
               \<and> member (reloaded t) (js ''category'') = member (Instance t) (js ''category'')
               \<and> member (reloaded t) (js ''status'') = member (Instance t) (js ''status'')
               \<and> member (reloaded t) (js ''createdAt'') = Inr (Str (toISOString (createdAt t)))) ts"
proof -
  from assms(1) have "tasks w0 = Arr (map Instance [])" by simp
  from addTasks_Instances[OF this, of calls] assms(2)
  obtain ts where ts: "tasks w = Arr (map Instance ts)" by auto
  have fields: "list_all (\<lambda>t.
                 member (reloaded t) (js ''id'') = member (Instance t) (js ''id'')
               \<and> member (reloaded t) (js ''title'') = member (Instance t) (js ''title'')
               \<and> member (reloaded t) (js ''category'') = member (Instance t) (js ''category'')
               \<and> member (reloaded t) (js ''status'') = member (Instance t) (js ''status'')
               \<and> member (reloaded t) (js ''createdAt'') = Inr (Str (toISOString (createdAt t)))) ts"
    by (simp add: list_all_iff reloaded_def lookup_def own_properties_def)
  from ts loadTasks_saveTasks_Instances[OF ts] fields show ?thesis by blast
qed

theorem save_load_roundtrip_witness:
  "tasks empty_store = Arr []
   \<and> addTasks [(js ''0.4fzyo82mvyr'', 1704067200000, js ''Buy milk'', js ''home'', js ''not-started''),
                (js ''0.k2x9q0d1a8f'', 1704067260000, js ''Write report'', js ''work'', js ''in-progress'')]
        empty_store = Inr milk_report_store
   \<and> tasks milk_report_store = Arr [Instance milk, Instance report]
   \<and> loadTasks (saveTasks milk_report_store)
        = Inr ((saveTasks milk_report_store)\<lparr> tasks := Arr [reloaded milk, reloaded report] \<rparr>)"
proof -
  have a: "tasks empty_store = Arr []"
    by (simp add: empty_store_def)
  have b: "addTasks [(js ''0.4fzyo82mvyr'', 1704067200000, js ''Buy milk'', js ''home'', js ''not-started''),
                (js ''0.k2x9q0d1a8f'', 1704067260000, js ''Write report'', js ''work'', js ''in-progress'')]
        empty_store = Inr milk_report_store"
    by (simp add: addTask_milk addTask_report del: js_simps)
  have c: "tasks milk_report_store = Arr [Instance milk, Instance report]"
    by (simp add: milk_report_store_def saveTasks_def)
  from save_load_roundtrip[OF a b] c
  have "loadTasks (saveTasks milk_report_store)
        = Inr ((saveTasks milk_report_store)\<lparr> tasks := Arr [reloaded milk, reloaded report] \<rparr>)"
    by (auto simp: map_eq_Cons_conv)
  with a b c show ?thesis by blast
qed

text \<open>
  C1 as stated fails at \<^verbatim>\<open>createdAt\<close>: the task that was saved holds a \<^verbatim>\<open>Date\<close>, the
  task that is loaded holds a string.
\<close>

theorem save_load_createdAt_counterexample:
  "addTasks [(js ''0.4fzyo82mvyr'', 1704067200000, js ''Buy milk'', js ''home'', js ''not-started'')]
      empty_store = Inr milk_store
   \<and> tasks milk_store = Arr [Instance milk]
   \<and> loadTasks (saveTasks milk_store) = Inr ((saveTasks milk_store)\<lparr> tasks := Arr [reloaded milk] \<rparr>)
   \<and> member (Instance milk) (js ''createdAt'') = Inr (DateV 1704067200000)
   \<and> member (reloaded milk) (js ''createdAt'') = Inr (Str (js ''2024-01-01T00:00:00.000Z''))"
proof -
  have t: "tasks milk_store = Arr (map Instance [milk])"
    by (simp add: milk_store_def saveTasks_def)
  have "member (reloaded milk) (js ''createdAt'') = Inr (Str (toISOString 1704067200000))"
    by (simp add: reloaded_def lookup_def milk_def)
  then have "member (reloaded milk) (js ''createdAt'') = Inr (Str (js ''2024-01-01T00:00:00.000Z''))"
    by (simp only: toISOString_milk)
  moreover have "member (Instance milk) (js ''createdAt'') = Inr (DateV 1704067200000)"
    by (simp add: own_properties_def milk_def)
  moreover have "addTasks [(js ''0.4fzyo82mvyr'', 1704067200000, js ''Buy milk'', js ''home'',
      js ''not-started'')] empty_store = Inr milk_store"
    by (simp add: addTask_milk del: js_simps)
  ultimately show ?thesis
    using t loadTasks_saveTasks_Instances[OF t] by simp
qed

subsection \<open>Adding a task\<close>

text \<open>
  C2. In every store state whose task list is an array, \<open>addTask\<close> with a title, a
  category and a status returns normally; the new list is the old one with one task
  appended, so its length is one more and every task that was there is unchanged; and
  the appended task has the given title, category and status.
\<close>

theorem addTask_appends:
  assumes "tasks w = Arr ts"
  shows "\<exists>w' t. addTask rnd now ttl cat st w = Inr w'
           \<and> tasks w' = Arr (ts @ [Instance t])
           \<and> length (ts @ [Instance t]) = length ts + 1
           \<and> title t = ttl \<and> category t = cat \<and> status t = st
           \<and> currentFilter w' = currentFilter w"
  using assms by (simp add: addTask_def Task_new_def saveTasks_def Let_def)

theorem addTask_appends_witness:
  "tasks milk_store = Arr [Instance milk]
   \<and> (\<exists>w' t. addTask (js ''0.k2x9q0d1a8f'') 1704067260000 (js ''Write report'') (js ''work'')
                (js ''in-progress'') milk_store = Inr w'
          \<and> tasks w' = Arr ([Instance milk] @ [Instance t])
          \<and> length ([Instance milk] @ [Instance t]) = length [Instance milk] + 1
          \<and> title t = js ''Write report'' \<and> category t = js ''work''
          \<and> status t = js ''in-progress''
          \<and> currentFilter w' = currentFilter milk_store)"
proof -
  have a: "tasks milk_store = Arr [Instance milk]"
    by (simp add: milk_store_def saveTasks_def)
  from addTask_appends[OF a] a show ?thesis by blast
qed

subsection \<open>Deleting a task\<close>

text \<open>
  C3, as amended. In every store state whose list holds task objects, \<open>deleteTask\<close>
  returns normally and removes every task whose identifier is the given one, leaving
  all other tasks unchanged and in order: the length decreases by the number of tasks
  with that identifier (by exactly 1 when exactly one task has it), and if no task has
  it the list is unchanged.
\<close>

theorem deleteTask_removes_all:
  assumes "tasks w = Arr ts" and "list_all is_task_object ts"
  shows "\<exists>w'. deleteTask taskId w = Inr w'
           \<and> tasks w' = Arr (filter (\<lambda>t. \<not> id_is taskId t) ts)
           \<and> length (filter (\<lambda>t. \<not> id_is taskId t) ts) + length (filter (id_is taskId) ts) = length ts
           \<and> (filter (id_is taskId) ts = [] \<longrightarrow> tasks w' = Arr ts)
           \<and> currentFilter w' = currentFilter w"
proof -
  have "list_all (\<lambda>t. has_other_id taskId t = Inr (\<not> id_is taskId t)) ts"
    using assms(2) by (rule list_all_mono') (rule has_other_id_object)
  then have f: "filter_array (has_other_id taskId) ts = Inr (filter (\<lambda>t. \<not> id_is taskId t) ts)"
    by (rule filter_array_total)
  have n: "filter (id_is taskId) ts = [] \<Longrightarrow> filter (\<lambda>t. \<not> id_is taskId t) ts = ts"
    by (simp add: filter_empty_conv)
  show ?thesis
    using assms(1) f n
    by (simp add: deleteTask_def saveTasks_def sum_length_filter_compl add.commute)
qed

theorem deleteTask_removes_all_witness:
  "tasks milk_report_store = Arr [Instance milk, Instance report]
   \<and> list_all is_task_object [Instance milk, Instance report]
   \<and> (\<exists>w'. deleteTask (js ''4fzyo82mv'') milk_report_store = Inr w'
         \<and> tasks w' = Arr [Instance report])
   \<and> (\<exists>w'. deleteTask (js ''zzzzzzzzz'') milk_report_store = Inr w'
         \<and> tasks w' = Arr [Instance milk, Instance report])"
proof -
  have a: "tasks milk_report_store = Arr [Instance milk, Instance report]"
    by (simp add: milk_report_store_def saveTasks_def)
  have b: "list_all is_task_object [Instance milk, Instance report]"
    by simp
  have i: "id_is (js ''4fzyo82mv'') (Instance milk)" "\<not> id_is (js ''4fzyo82mv'') (Instance report)"
    "\<not> id_is (js ''zzzzzzzzz'') (Instance milk)" "\<not> id_is (js ''zzzzzzzzz'') (Instance report)"
    by (simp_all add: id_is_def own_properties_def milk_def report_def)
  from deleteTask_removes_all[OF a b, of "js ''4fzyo82mv''"]
  have "\<exists>w'. deleteTask (js ''4fzyo82mv'') milk_report_store = Inr w'
         \<and> tasks w' = Arr [Instance report]"
    by (auto simp: i simp del: js_simps)
  moreover from deleteTask_removes_all[OF a b, of "js ''zzzzzzzzz''"]
  have "\<exists>w'. deleteTask (js ''zzzzzzzzz'') milk_report_store = Inr w'
         \<and> tasks w' = Arr [Instance milk, Instance report]"
    by (auto simp: i simp del: js_simps)
  ultimately show ?thesis
    using a b by blast
qed

text \<open>
  C3 as stated fails when identifiers repeat: the two tasks below were both made from
  the random number 0.5 and share the identifier \<^verbatim>\<open>"i"\<close>; deleting it takes the list
  from length 2 to length 0.
\<close>

theorem deleteTask_duplicate_counterexample:
  "addTasks [(js ''0.i'', 1704067200000, js ''Buy milk'', js ''home'', js ''not-started''),
             (js ''0.i'', 1704067260000, js ''Write report'', js ''work'', js ''in-progress'')]
      empty_store
     = Inr (saveTasks (empty_store\<lparr> tasks := Arr [Instance twin_a, Instance twin_b] \<rparr>))
   \<and> deleteTask (js ''i'') (saveTasks (empty_store\<lparr> tasks := Arr [Instance twin_a, Instance twin_b] \<rparr>))
     = Inr (saveTasks (empty_store\<lparr> tasks := Arr [] \<rparr>))"
  by (simp add: addTask_def deleteTask_def Task_new_def substring_def saveTasks_def
      empty_store_def twin_a_def twin_b_def has_other_id_def own_properties_def Let_def)

subsection \<open>Updating a status\<close>

text \<open>
  C4 fails on the code for a task that was loaded from storage. The state
  \<open>milk_store\<close> is the store after one \<open>addTask\<close>; its storage slot holds the text
  below. A new \<^verbatim>\<open>TodoApp\<close> constructed over that slot (a page reload) holds the task
  as an ordinary object; \<open>updateTaskStatus\<close> with its identifier then throws a
  TypeError (\<^verbatim>\<open>task.updateStatus is not a function\<close>) and the status is not changed,
  whereas the same call in the session that created the task succeeds.
\<close>

theorem updateTaskStatus_after_reload:
  "storage milk_store
     = Some (js ''[{\"id\":\"4fzyo82mv\",\"title\":\"Buy milk\",\"category\":\"home\",\"status\":\"not-started\",\"createdAt\":\"2024-01-01T00:00:00.000Z\"}]'')
   \<and> TodoApp_new (storage milk_store) = Inr (milk_store\<lparr> tasks := Arr [reloaded milk] \<rparr>)
   \<and> id_is (js ''4fzyo82mv'') (reloaded milk)
   \<and> updateTaskStatus (js ''4fzyo82mv'') (js ''completed'') (milk_store\<lparr> tasks := Arr [reloaded milk] \<rparr>)
       = Inl TypeError
   \<and> updateTaskStatus (js ''4fzyo82mv'') (js ''completed'') milk_store
       = Inr (saveTasks (milk_store\<lparr> tasks := Arr [Instance (milk\<lparr> status := js ''completed'' \<rparr>)] \<rparr>))"
proof -
  have s: "storage milk_store
     = Some (js ''[{\"id\":\"4fzyo82mv\",\"title\":\"Buy milk\",\"category\":\"home\",\"status\":\"not-started\",\"createdAt\":\"2024-01-01T00:00:00.000Z\"}]'')"
    by code_simp
  have "storage \<lparr> tasks = Arr [], currentFilter = js ''all'', storage = storage milk_store \<rparr>
      = JSON_stringify (Arr (map Instance [milk]))"
    by (simp add: storage_milk_store)
  then have "TodoApp_new (storage milk_store)
      = Inr (\<lparr> tasks = Arr [], currentFilter = js ''all'', storage = storage milk_store \<rparr>
               \<lparr> tasks := Arr (map reloaded [milk]) \<rparr>)"
    unfolding TodoApp_new_def by (rule loadTasks_stored_Instances)
  then have n: "TodoApp_new (storage milk_store) = Inr (milk_store\<lparr> tasks := Arr [reloaded milk] \<rparr>)"
    by (simp add: milk_store_def saveTasks_def empty_store_def)
  have i: "id_is (js ''4fzyo82mv'') (reloaded milk)"
    by (simp add: id_is_def reloaded_def lookup_def milk_def)
  have u: "updateTaskStatus (js ''4fzyo82mv'') (js ''completed'') (milk_store\<lparr> tasks := Arr [reloaded milk] \<rparr>)
       = Inl TypeError"
    by (simp add: updateTaskStatus_def has_id_def reloaded_def lookup_def milk_def)
  have v: "updateTaskStatus (js ''4fzyo82mv'') (js ''completed'') milk_store
       = Inr (saveTasks (milk_store\<lparr> tasks := Arr [Instance (milk\<lparr> status := js ''completed'' \<rparr>)] \<rparr>))"
    by (simp add: updateTaskStatus_def has_id_def own_properties_def milk_def milk_store_def
        saveTasks_def updateStatus_def)
  from s n i u v show ?thesis by (simp only: simp_thms)
qed

text \<open>
  For a list of \<^verbatim>\<open>Task\<close> instances, as built by \<open>addTask\<close> within one session, the
  update does what C4 says: the first task with the identifier gets the new status,
  no other field and no other task changes, and the list is saved; if no task has the
  identifier, nothing changes.
\<close>

theorem updateTaskStatus_Instances:
  assumes "tasks w = Arr (map Instance ts)"
  shows "(i < length ts \<and> id_task (ts ! i) = taskId
            \<and> list_all (\<lambda>t. id_task t \<noteq> taskId) (take i ts)
          \<longrightarrow> updateTaskStatus taskId newStatus w
                = Inr (saveTasks (w\<lparr> tasks := Arr (map Instance (ts[i := (ts ! i)\<lparr> status := newStatus \<rparr>])) \<rparr>)))
       \<and> (list_all (\<lambda>t. id_task t \<noteq> taskId) ts
          \<longrightarrow> updateTaskStatus taskId newStatus w = Inr w)"
proof (intro conjI impI)
  assume a: "i < length ts \<and> id_task (ts ! i) = taskId
            \<and> list_all (\<lambda>t. id_task t \<noteq> taskId) (take i ts)"
  then have "find_first (has_id taskId) (map Instance ts) = Inr (Some i)"
    by (intro find_first_Instances_present) simp_all
  with assms a show "updateTaskStatus taskId newStatus w
      = Inr (saveTasks (w\<lparr> tasks := Arr (map Instance (ts[i := (ts ! i)\<lparr> status := newStatus \<rparr>])) \<rparr>))"
    by (simp add: updateTaskStatus_def updateStatus_def map_update)
next
  assume "list_all (\<lambda>t. id_task t \<noteq> taskId) ts"
  then have "find_first (has_id taskId) (map Instance ts) = Inr None"
    by (rule find_first_Instances_absent)
  with assms show "updateTaskStatus taskId newStatus w = Inr w"
    by (simp add: updateTaskStatus_def)
qed

theorem updateTaskStatus_Instances_witness:
  "tasks milk_report_store = Arr (map Instance [milk, report])
   \<and> updateTaskStatus (js ''k2x9q0d1a'') (js ''completed'') milk_report_store
       = Inr (saveTasks (milk_report_store\<lparr> tasks := Arr [Instance milk,
                Instance (report\<lparr> status := js ''completed'' \<rparr>)] \<rparr>))
   \<and> updateTaskStatus (js ''zzzzzzzzz'') (js ''completed'') milk_report_store
       = Inr milk_report_store"
proof -
  have a: "tasks milk_report_store = Arr (map Instance [milk, report])"
    by (simp add: milk_report_store_def saveTasks_def)
  have i: "id_task milk = js ''4fzyo82mv''" "id_task report = js ''k2x9q0d1a''"
    by (simp_all add: milk_def report_def)
  from updateTaskStatus_Instances[OF a, of 1 "js ''k2x9q0d1a''" "js ''completed''"]
  have "updateTaskStatus (js ''k2x9q0d1a'') (js ''completed'') milk_report_store
       = Inr (saveTasks (milk_report_store\<lparr> tasks := Arr [Instance milk,
                Instance (report\<lparr> status := js ''completed'' \<rparr>)] \<rparr>))"
    by (simp add: i)
  moreover from updateTaskStatus_Instances[OF a, of 0 "js ''zzzzzzzzz''" "js ''completed''"]
  have "updateTaskStatus (js ''zzzzzzzzz'') (js ''completed'') milk_report_store
       = Inr milk_report_store"
    by (simp add: i)
  ultimately show ?thesis using a by blast
qed

subsection \<open>The persisted state\<close>

text \<open>
  C5. Whenever \<open>addTask\<close>, \<open>deleteTask\<close>, or \<open>updateTaskStatus\<close> for an identifier
  that some task has, returns normally, the storage slot holds the JSON serialization
  of the task list in memory. \<open>updateTaskStatus\<close> for an identifier that no task has
  writes nothing, so it keeps that relation if it held before.
\<close>

theorem mutations_persist:
  "(addTask rnd now ttl cat st w = Inr w' \<longrightarrow> persisted w')
   \<and> (deleteTask taskId w = Inr w' \<longrightarrow> persisted w')
   \<and> (updateTaskStatus taskId newStatus w = Inr w' \<and> tasks w = Arr ts \<and> list_ex (id_is taskId) ts
        \<longrightarrow> persisted w')
   \<and> (updateTaskStatus taskId newStatus w = Inr w' \<and> persisted w \<longrightarrow> persisted w')"
proof (intro conjI impI)
  assume "addTask rnd now ttl cat st w = Inr w'"
  then show "persisted w'"
    by (auto simp: addTask_def Let_def persisted_saveTasks split: jsval.splits)
next
  assume "deleteTask taskId w = Inr w'"
  then show "persisted w'"
    by (auto simp: deleteTask_def persisted_saveTasks split: jsval.splits sum.splits)
next
  assume a: "updateTaskStatus taskId newStatus w = Inr w' \<and> tasks w = Arr ts \<and> list_ex (id_is taskId) ts"
  then have "find_first (has_id taskId) ts \<noteq> Inr None"
    using find_first_absent by blast
  with a show "persisted w'"
    by (auto simp: updateTaskStatus_def persisted_saveTasks split: jsval.splits sum.splits option.splits)
next
  assume "updateTaskStatus taskId newStatus w = Inr w' \<and> persisted w"
  then show "persisted w'"
    by (auto simp: updateTaskStatus_def persisted_saveTasks split: jsval.splits sum.splits option.splits)
qed

theorem mutations_persist_witness:
  "addTask (js ''0.4fzyo82mvyr'') 1704067200000 (js ''Buy milk'') (js ''home'') (js ''not-started'')
     empty_store = Inr milk_store
   \<and> persisted milk_store
   \<and> deleteTask (js ''4fzyo82mv'') milk_store = Inr (saveTasks (milk_store\<lparr> tasks := Arr [] \<rparr>))
   \<and> persisted (saveTasks (milk_store\<lparr> tasks := Arr [] \<rparr>))
   \<and> tasks milk_store = Arr [Instance milk]
   \<and> list_ex (id_is (js ''4fzyo82mv'')) [Instance milk]
   \<and> updateTaskStatus (js ''4fzyo82mv'') (js ''completed'') milk_store
       = Inr (saveTasks (milk_store\<lparr> tasks := Arr [Instance (milk\<lparr> status := js ''completed'' \<rparr>)] \<rparr>))
   \<and> persisted (saveTasks (milk_store\<lparr> tasks := Arr [Instance (milk\<lparr> status := js ''completed'' \<rparr>)] \<rparr>))
   \<and> updateTaskStatus (js ''zzzzzzzzz'') (js ''completed'') milk_store = Inr milk_store"
proof -
  have t: "tasks milk_store = Arr [Instance milk]"
    by (simp add: milk_store_def saveTasks_def)
  have d: "deleteTask (js ''4fzyo82mv'') milk_store = Inr (saveTasks (milk_store\<lparr> tasks := Arr [] \<rparr>))"
    by (simp add: deleteTask_def t has_other_id_def own_properties_def milk_def)
  have e: "list_ex (id_is (js ''4fzyo82mv'')) [Instance milk]"
    by (simp add: id_is_def own_properties_def milk_def)
  have u: "updateTaskStatus (js ''4fzyo82mv'') (js ''completed'') milk_store
       = Inr (saveTasks (milk_store\<lparr> tasks := Arr [Instance (milk\<lparr> status := js ''completed'' \<rparr>)] \<rparr>))"
    by (simp add: updateTaskStatus_def t has_id_def own_properties_def milk_def updateStatus_def)
  have v: "updateTaskStatus (js ''zzzzzzzzz'') (js ''completed'') milk_store = Inr milk_store"
    by (simp add: updateTaskStatus_def t has_id_def own_properties_def milk_def)
  have p1: "persisted milk_store"
    using mutations_persist[of "js ''0.4fzyo82mvyr''" 1704067200000 "js ''Buy milk''" "js ''home''"
        "js ''not-started''" empty_store milk_store] addTask_milk by blast
  have p2: "persisted (saveTasks (milk_store\<lparr> tasks := Arr [] \<rparr>))"
    using mutations_persist[of _ _ _ _ _ milk_store "saveTasks (milk_store\<lparr> tasks := Arr [] \<rparr>)"
        "js ''4fzyo82mv''"] d by blast
  have p3: "persisted (saveTasks (milk_store\<lparr> tasks := Arr [Instance (milk\<lparr> status := js ''completed'' \<rparr>)] \<rparr>))"
    using mutations_persist[of _ _ _ _ _ milk_store
        "saveTasks (milk_store\<lparr> tasks := Arr [Instance (milk\<lparr> status := js ''completed'' \<rparr>)] \<rparr>)"
        "js ''4fzyo82mv''" "js ''completed''" "[Instance milk]"] u t e by blast
  from addTask_milk p1 d p2 t e u p3 v show ?thesis by (simp only: simp_thms)
qed

subsection \<open>Filtering\<close>

text \<open>
  C6. In every store state whose list holds task objects, \<open>getFilteredTasks\<close> returns
  the whole list when the current filter is \<^verbatim>\<open>"all"\<close>, and otherwise exactly the
  tasks whose category equals the current filter, in their original order. It is a
  function of the state alone and returns no state: it has no effect on the store.
\<close>

theorem getFilteredTasks_subsequence:
  assumes "tasks w = Arr ts" and "list_all is_task_object ts"
  shows "getFilteredTasks w =
           Inr (if currentFilter w = js ''all'' then Arr ts
                else Arr (filter (\<lambda>t. member t (js ''category'') = Inr (Str (currentFilter w))) ts))"
proof -
  have "list_all (\<lambda>t. has_category (currentFilter w) t
          = Inr (member t (js ''category'') = Inr (Str (currentFilter w)))) ts"
    using assms(2) by (rule list_all_mono') (rule has_category_object)
  then have "filter_array (has_category (currentFilter w)) ts
      = Inr (filter (\<lambda>t. member t (js ''category'') = Inr (Str (currentFilter w))) ts)"
    by (rule filter_array_total)
  then show ?thesis
    using assms(1) by (simp add: getFilteredTasks_def)
qed

theorem getFilteredTasks_subsequence_witness:
  "tasks (milk_report_store\<lparr> currentFilter := js ''work'' \<rparr>) = Arr [Instance milk, Instance report]
   \<and> list_all is_task_object [Instance milk, Instance report]
   \<and> getFilteredTasks (milk_report_store\<lparr> currentFilter := js ''work'' \<rparr>) = Inr (Arr [Instance report])
   \<and> getFilteredTasks milk_report_store = Inr (Arr [Instance milk, Instance report])"
proof -
  have a: "tasks (milk_report_store\<lparr> currentFilter := js ''work'' \<rparr>) = Arr [Instance milk, Instance report]"
    and b: "tasks milk_report_store = Arr [Instance milk, Instance report]"
    by (simp_all add: milk_report_store_def saveTasks_def)
  have c: "list_all is_task_object [Instance milk, Instance report]"
    by simp
  have "getFilteredTasks (milk_report_store\<lparr> currentFilter := js ''work'' \<rparr>) = Inr (Arr [Instance report])"
    using getFilteredTasks_subsequence[OF a c]
    by (simp add: milk_def report_def own_properties_def)
  moreover have "getFilteredTasks milk_report_store = Inr (Arr [Instance milk, Instance report])"
    using getFilteredTasks_subsequence[OF b c]
    by (simp add: milk_report_store_def saveTasks_def empty_store_def)
  ultimately show ?thesis using a c by blast
qed

subsection \<open>The priority\<close>

text \<open>
  C7, as amended. For two tasks observed at the same time \<open>now\<close>, at or after the
  creation of both, \<open>calculatePriority\<close> returns finite numbers. Each is the value of
  \<open>1 / (ageInDays + 1)\<close> computed in binary64 arithmetic, within a relative \<open>2^-50\<close> of
  the exact quotient. The results lie in \<open>(0, 1]\<close>; the task created earlier has a
  priority that is not larger, and a strictly smaller one when its age is at most
  \<open>2^50\<close> milliseconds (about 35678 years).
\<close>

theorem calculatePriority_decreasing:
  assumes "createdAt t2 \<le> createdAt t1" and "createdAt t1 \<le> now"
  shows "\<exists>p1 p2. calculatePriority now t1 = Finite p1 \<and> calculatePriority now t2 = Finite p2
    \<and> \<bar>p1 - exact_priority now t1\<bar> \<le> exact_priority now t1 / 2 ^ 50
    \<and> \<bar>p2 - exact_priority now t2\<bar> \<le> exact_priority now t2 / 2 ^ 50
    \<and> 0 < p2 \<and> p2 \<le> p1 \<and> p1 \<le> 1
    \<and> (createdAt t2 < createdAt t1 \<and> now - createdAt t2 \<le> 2 ^ 50 \<longrightarrow> p2 < p1)"
proof -
  define d1 where "d1 = now - createdAt t1"
  define d2 where "d2 = now - createdAt t2"
  have d: "0 \<le> d1" "d1 \<le> d2" "0 \<le> d2" using assms by (simp_all add: d1_def d2_def)
  have c1: "calculatePriority now t1 = Finite (priority_of_age d1)"
    using assms unfolding d1_def by (intro calculatePriority_age) simp
  have c2: "calculatePriority now t2 = Finite (priority_of_age d2)"
    using assms unfolding d2_def by (intro calculatePriority_age) simp
  have e1: "\<bar>priority_of_age d1 - exact_priority now t1\<bar> \<le> exact_priority now t1 / 2 ^ 50"
    using priority_accuracy[OF d(1)] by (simp add: exact_priority_def d1_def)
  have e2: "\<bar>priority_of_age d2 - exact_priority now t2\<bar> \<le> exact_priority now t2 / 2 ^ 50"
    using priority_accuracy[OF d(3)] by (simp add: exact_priority_def d2_def)
  have s: "createdAt t2 < createdAt t1 \<and> now - createdAt t2 \<le> 2 ^ 50 \<longrightarrow>
      priority_of_age d2 < priority_of_age d1"
  proof
    assume "createdAt t2 < createdAt t1 \<and> now - createdAt t2 \<le> 2 ^ 50"
    then have "d1 < d2" "d2 \<le> 2 ^ 50" by (simp_all add: d1_def d2_def)
    with d(1) show "priority_of_age d2 < priority_of_age d1" by (intro priority_strict)
  qed
  show ?thesis
    using c1 c2 e1 e2 s priority_range(1)[OF d(3)] priority_antimono[OF d(1,2)]
      priority_range(2)[OF d(1)]
    by blast
qed

text \<open>
  \<open>report\<close> was created one minute after \<open>milk\<close>. One day after the creation of
  \<open>milk\<close>, the priority of \<open>milk\<close> is one half and that of \<open>report\<close> is larger.
\<close>

theorem calculatePriority_decreasing_witness:
  "createdAt milk < createdAt report \<and> createdAt report \<le> 1704153600000
   \<and> 1704153600000 - createdAt milk \<le> 2 ^ 50
   \<and> calculatePriority 1704153600000 milk = Finite (1 / 2)
   \<and> (\<exists>p. calculatePriority 1704153600000 report = Finite p \<and> 1 / 2 < p \<and> p \<le> 1)"
proof -
  have h: "createdAt milk < createdAt report" "createdAt report \<le> 1704153600000"
    "1704153600000 - createdAt milk \<le> 2 ^ 50"
    by (simp_all add: milk_def report_def)
  have m: "calculatePriority 1704153600000 milk = Finite (1 / 2)"
    by code_simp
  from calculatePriority_decreasing[of milk report 1704153600000] h m
  have "\<exists>p. calculatePriority 1704153600000 report = Finite p \<and> 1 / 2 < p \<and> p \<le> 1"
    by auto
  with h m show ?thesis by simp
qed

text \<open>
  C7 as stated fails for old tasks. \<open>milk\<close> was created at the time value
  1704067200000, and \<open>milk_next\<close> one millisecond later. Observed at the time value
  4263264783481575 (in the year 137067, a valid \<^verbatim>\<open>Date\<close>), their ages are
  4261560716281575 and 4261560716281574 milliseconds, and both priorities are the
  same number: the task created earlier does not have the strictly smaller priority.
\<close>

theorem calculatePriority_collision_counterexample:
  "createdAt milk < createdAt milk_next
   \<and> createdAt milk_next \<le> 4263264783481575
   \<and> calculatePriority 4263264783481575 milk = calculatePriority 4263264783481575 milk_next"
  by code_simp

subsection \<open>Loading at startup\<close>

text \<open>
  C8, as amended. If nothing is stored under the key, or the stored value is the
  empty string, \<open>loadTasks\<close> leaves the task list as it is, which at startup is
  empty. If the stored value is a non-empty string that is valid JSON, the list is
  replaced by the parsed value, whatever its shape. If it is a non-empty string that
  is not valid JSON, a SyntaxError is thrown and the list is not modified.
\<close>

theorem loadTasks_cases:
  "(storage w = None \<longrightarrow> loadTasks w = Inr w)
   \<and> (storage w = Some [] \<longrightarrow> loadTasks w = Inr w)
   \<and> (storage w = Some stored \<and> stored \<noteq> [] \<and> JSON_parse stored = Some v
        \<longrightarrow> loadTasks w = Inr (w\<lparr> tasks := v \<rparr>))
   \<and> (storage w = Some stored \<and> stored \<noteq> [] \<and> JSON_parse stored = None
        \<longrightarrow> loadTasks w = Inl SyntaxError)
   \<and> TodoApp_new None = Inr \<lparr> tasks = Arr [], currentFilter = js ''all'', storage = None \<rparr>"
  by (simp add: loadTasks_def TodoApp_new_def)

theorem loadTasks_cases_witness:
  "loadTasks empty_store = Inr empty_store
   \<and> loadTasks (empty_store\<lparr> storage := Some [] \<rparr>) = Inr (empty_store\<lparr> storage := Some [] \<rparr>)
   \<and> JSON_parse (js ''{\"a\":[true,null]}'') = Some (Obj [(js ''a'', Arr [Bool True, Null])])
   \<and> loadTasks (empty_store\<lparr> storage := Some (js ''{\"a\":[true,null]}'') \<rparr>)
       = Inr (empty_store\<lparr> storage := Some (js ''{\"a\":[true,null]}''),
                            tasks := Obj [(js ''a'', Arr [Bool True, Null])] \<rparr>)
   \<and> JSON_parse (js ''[{\"id\":'') = None
   \<and> loadTasks (empty_store\<lparr> storage := Some (js ''[{\"id\":'') \<rparr>) = Inl SyntaxError"
proof -
  have p: "JSON_parse (js ''{\"a\":[true,null]}'') = Some (Obj [(js ''a'', Arr [Bool True, Null])])"
    by code_simp
  have q: "JSON_parse (js ''[{\"id\":'') = None"
    by code_simp
  have "loadTasks empty_store = Inr empty_store"
    using loadTasks_cases[of empty_store] by (simp add: empty_store_def)
  moreover have "loadTasks (empty_store\<lparr> storage := Some [] \<rparr>) = Inr (empty_store\<lparr> storage := Some [] \<rparr>)"
    using loadTasks_cases[of "empty_store\<lparr> storage := Some [] \<rparr>"] by simp
  moreover have "loadTasks (empty_store\<lparr> storage := Some (js ''{\"a\":[true,null]}'') \<rparr>)
       = Inr (empty_store\<lparr> storage := Some (js ''{\"a\":[true,null]}''),
                            tasks := Obj [(js ''a'', Arr [Bool True, Null])] \<rparr>)"
    using loadTasks_cases[of "empty_store\<lparr> storage := Some (js ''{\"a\":[true,null]}'') \<rparr>"
        "js ''{\"a\":[true,null]}''" "Obj [(js ''a'', Arr [Bool True, Null])]"] p
    by (simp del: js_simps) (simp add: js_def)
  moreover have "loadTasks (empty_store\<lparr> storage := Some (js ''[{\"id\":'') \<rparr>) = Inl SyntaxError"
    using loadTasks_cases[of "empty_store\<lparr> storage := Some (js ''[{\"id\":'') \<rparr>" "js ''[{\"id\":''"] q
    by (simp del: js_simps) (simp add: js_def)
  ultimately show ?thesis using p q by (simp only: simp_thms)
qed

text \<open>
  C8 as stated fails for the empty string: it is stored, it is not valid JSON, and
  yet the constructor returns normally with the empty list.
\<close>

theorem loadTasks_empty_string_counterexample:
  "JSON_parse [] = None
   \<and> TodoApp_new (Some []) = Inr \<lparr> tasks = Arr [], currentFilter = js ''all'', storage = Some [] \<rparr>"
  by (simp add: loadTasks_def TodoApp_new_def JSON_parse_def skip_ws_def parse_value.simps)

subsection \<open>The identifier\<close>

text \<open>
  C9, as amended. The identifier of a constructed task is the characters 2 to 10 of
  the base-36 string of the random number: a string of at most 9 characters, and of
  exactly 9 when that string has at least 11. It is not modified by \<open>updateStatus\<close>,
  nor by \<open>addTask\<close>, \<open>updateTaskStatus\<close> or \<open>saveTasks\<close>: these leave the identifier
  of every task in the list as it was. \<open>calculatePriority\<close> assigns nothing: it reads
  \<open>createdAt\<close> and returns a number.
\<close>

theorem task_identifier:
  "id_task (Task_new rnd now ttl cat st) = substring 2 11 rnd
   \<and> length (id_task (Task_new rnd now ttl cat st)) = min 9 (length rnd - 2)
   \<and> id_task (updateStatus newStatus t) = id_task t
   \<and> (addTask rnd now ttl c s w = Inr w'
        \<longrightarrow> identifiers w' = identifiers w @ [Inr (Str (substring 2 11 rnd))])
   \<and> (updateTaskStatus taskId newStatus w = Inr w'' \<longrightarrow> identifiers w'' = identifiers w)
   \<and> identifiers (saveTasks w) = identifiers w"
proof (intro conjI impI)
  show "id_task (Task_new rnd now ttl cat st) = substring 2 11 rnd"
    by (simp add: Task_new_def)
  show "length (id_task (Task_new rnd now ttl cat st)) = min 9 (length rnd - 2)"
    by (simp add: Task_new_def substring_def min_def)
  show "id_task (updateStatus newStatus t) = id_task t"
    by (simp add: updateStatus_def)
  show "identifiers (saveTasks w) = identifiers w"
    by (simp add: identifiers_def saveTasks_def)
next
  assume "addTask rnd now ttl c s w = Inr w'"
  then show "identifiers w' = identifiers w @ [Inr (Str (substring 2 11 rnd))]"
    by (auto simp: addTask_def Let_def identifiers_def saveTasks_def Task_new_def
        own_properties_def split: jsval.splits)
next
  assume a: "updateTaskStatus taskId newStatus w = Inr w''"
  show "identifiers w'' = identifiers w"
  proof (cases "tasks w")
    case (Arr ts)
    show ?thesis
    proof (cases "find_first (has_id taskId) ts")
      case (Inl e)
      with a Arr show ?thesis by (simp add: updateTaskStatus_def)
    next
      case (Inr r)
      show ?thesis
      proof (cases r)
        case None
        with a Arr Inr show ?thesis by (simp add: updateTaskStatus_def)
      next
        case (Some i)
        with Inr have i: "i < length ts"
          using find_first_Some by blast
        show ?thesis
        proof (cases "ts ! i")
          case (Instance task)
          have "map (\<lambda>t. member t (js ''id'')) (ts[i := Instance (updateStatus newStatus task)])
                = map (\<lambda>t. member t (js ''id'')) ts"
            using i Instance by (intro map_list_update_same) (simp_all only: member_id_updateStatus)
          with a Arr Inr Some Instance show ?thesis
            by (auto simp: updateTaskStatus_def identifiers_def saveTasks_def)
        qed (use a Arr Inr Some in \<open>simp_all add: updateTaskStatus_def\<close>)
      qed
    qed
  qed (use a in \<open>simp_all add: updateTaskStatus_def\<close>)
qed

theorem task_identifier_witness:
  "id_task (Task_new (js ''0.4fzyo82mvyr'') 1704067200000 (js ''Buy milk'') None None) = js ''4fzyo82mv''
   \<and> length (id_task (Task_new (js ''0.4fzyo82mvyr'') 1704067200000 (js ''Buy milk'') None None)) = 9
   \<and> addTask (js ''0.k2x9q0d1a8f'') 1704067260000 (js ''Write report'') (js ''work'')
        (js ''in-progress'') milk_store = Inr milk_report_store
   \<and> identifiers milk_store = [Inr (Str (js ''4fzyo82mv''))]
   \<and> identifiers milk_report_store = [Inr (Str (js ''4fzyo82mv'')), Inr (Str (js ''k2x9q0d1a''))]
   \<and> updateTaskStatus (js ''4fzyo82mv'') (js ''completed'') milk_report_store
       = Inr (saveTasks (milk_report_store\<lparr> tasks := Arr [Instance (milk\<lparr> status := js ''completed'' \<rparr>),
                Instance report] \<rparr>))
   \<and> identifiers (saveTasks (milk_report_store\<lparr> tasks := Arr [Instance (milk\<lparr> status := js ''completed'' \<rparr>),
                Instance report] \<rparr>))
       = [Inr (Str (js ''4fzyo82mv'')), Inr (Str (js ''k2x9q0d1a''))]"
proof -
  have m: "identifiers milk_store = [Inr (Str (js ''4fzyo82mv''))]"
    by (simp add: identifiers_def milk_store_def saveTasks_def own_properties_def milk_def)
  have u: "updateTaskStatus (js ''4fzyo82mv'') (js ''completed'') milk_report_store
       = Inr (saveTasks (milk_report_store\<lparr> tasks := Arr [Instance (milk\<lparr> status := js ''completed'' \<rparr>),
                Instance report] \<rparr>))"
    by (simp add: updateTaskStatus_def milk_report_store_def saveTasks_def has_id_def
        own_properties_def milk_def updateStatus_def)
  note T = task_identifier[of "js ''0.k2x9q0d1a8f''" 1704067260000 "js ''Write report''" _ _ _ _
      "js ''work''" "js ''in-progress''" milk_store milk_report_store]
  have r: "identifiers milk_report_store = [Inr (Str (js ''4fzyo82mv'')), Inr (Str (js ''k2x9q0d1a''))]"
    using T addTask_report m by (simp add: substring_def)
  have "identifiers (saveTasks (milk_report_store\<lparr> tasks := Arr [Instance (milk\<lparr> status := js ''completed'' \<rparr>),
                Instance report] \<rparr>))
       = [Inr (Str (js ''4fzyo82mv'')), Inr (Str (js ''k2x9q0d1a''))]"
    using task_identifier[of _ _ _ _ _ "js ''completed''" _ _ _ milk_report_store _ "js ''4fzyo82mv''"
        "saveTasks (milk_report_store\<lparr> tasks := Arr [Instance (milk\<lparr> status := js ''completed'' \<rparr>),
                Instance report] \<rparr>)"] u r by simp
  moreover have "id_task (Task_new (js ''0.4fzyo82mvyr'') 1704067200000 (js ''Buy milk'') None None) = js ''4fzyo82mv''"
    using task_identifier[of "js ''0.4fzyo82mvyr''" 1704067200000 "js ''Buy milk''" None None]
    by (simp add: substring_def)
  moreover have "length (js ''4fzyo82mv'') = 9"
    by simp
  ultimately show ?thesis
    using m r u addTask_report by (simp del: js_simps)
qed

text \<open>
  C9 as stated fails when the random number has a short base-36 string: 0.5 is
  \<^verbatim>\<open>"0.i"\<close>, and the identifier is the single character \<^verbatim>\<open>"i"\<close>.
\<close>

theorem task_identifier_short_counterexample:
  "id_task (Task_new (js ''0.i'') 1704067200000 (js ''Buy milk'') None None) = js ''i''
   \<and> length (id_task (Task_new (js ''0.i'') 1704067200000 (js ''Buy milk'') None None)) \<noteq> 9"
  by (simp add: Task_new_def substring_def)

subsection \<open>Icons and labels\<close>

text \<open>
  C10, as amended. For every status string that is none of \<^verbatim>\<open>not-started\<close>,
  \<^verbatim>\<open>in-progress\<close>, \<^verbatim>\<open>completed\<close> and is not the name of a member inherited from
  \<^verbatim>\<open>Object.prototype\<close>, \<open>getStatusText\<close> returns \<^verbatim>\<open>undefined\<close>; for every category
  string that is none of \<^verbatim>\<open>home\<close>, \<^verbatim>\<open>work\<close>, \<^verbatim>\<open>study\<close> and is not such a name,
  \<open>getCategoryIcon\<close> returns the pushpin.
\<close>

theorem lookup_outside_tables:
  "(st \<notin> {js ''not-started'', js ''in-progress'', js ''completed''} \<and> st \<notin> set object_prototype
      \<longrightarrow> getStatusText st = Undefined)
   \<and> (cat \<notin> {js ''home'', js ''work'', js ''study''} \<and> cat \<notin> set object_prototype
      \<longrightarrow> getCategoryIcon cat = Str [0xD83D, 0xDCCC])"
  by (simp add: getStatusText_def getCategoryIcon_def lookup_def texts_def icons_def)

theorem lookup_outside_tables_witness:
  "js ''archived'' \<notin> {js ''not-started'', js ''in-progress'', js ''completed''}
   \<and> js ''archived'' \<notin> set object_prototype
   \<and> getStatusText (js ''archived'') = Undefined
   \<and> js ''garden'' \<notin> {js ''home'', js ''work'', js ''study''}
   \<and> js ''garden'' \<notin> set object_prototype
   \<and> getCategoryIcon (js ''garden'') = Str [0xD83D, 0xDCCC]"
  using lookup_outside_tables [of "js ''archived''" "js ''garden''"]
  by (simp add: object_prototype_def)

text \<open>
  C10 as stated fails: \<^verbatim>\<open>constructor\<close> is outside both tables, yet both reads give
  the function inherited from \<^verbatim>\<open>Object.prototype\<close>, which is neither \<^verbatim>\<open>undefined\<close>
  nor the pushpin.
\<close>

theorem lookup_inherited_counterexample:
  "js ''constructor'' \<notin> {js ''not-started'', js ''in-progress'', js ''completed''}
   \<and> getStatusText (js ''constructor'') = Inherited (js ''constructor'')
   \<and> js ''constructor'' \<notin> {js ''home'', js ''work'', js ''study''}
   \<and> getCategoryIcon (js ''constructor'') = Inherited (js ''constructor'')"
  by (simp add: getStatusText_def getCategoryIcon_def lookup_def texts_def icons_def
      object_prototype_def)

end
